theory Spec2Isabelle
  imports Main "HOL-Library.Word"
begin

section \<open>Shared vocabulary\<close>

text \<open>
  Errors are values.  The two sandbox-state errors are the package variables
  \<open>engines.ErrSandboxTerminated\<close> and \<open>engines.ErrSandboxAborted\<close>; an error created
  by \<open>fmt.Errorf\<close> keeps its format string and the error it wraps (if any); an error
  handed back by the operating system or by a library is opaque and only carries a label;
  \<open>runtime.NewMalformedPayloadError\<close> keeps the leading text and the wrapped cause.
\<close>

datatype error =
    ErrSandboxTerminated
  | ErrSandboxAborted
  | OSError string
  | Errorf string "error option"
  | MalformedPayloadError string "error option"

type_synonym path = string

text \<open>
  A call either returns a value, or never returns because it waits for something that does
  not come, or panics.  A panic carries the failure that caused it.
\<close>

datatype 'a outcome =
    Returns 'a
  | Blocks
  | Panics error

fun returned :: "'a outcome \<Rightarrow> 'a option" where
  "returned (Returns x) = Some x"
| "returned Blocks = None"
| "returned (Panics err) = None"

section \<open>Native engine: \<open>engines/native/sandbox.go\<close>\<close>

subsection \<open>Collaborators of the sandbox\<close>

text \<open>\<open>system.User\<close>: only \<open>Name()\<close> and \<open>Home()\<close> are read by the sandbox.\<close>

record user =
  Name :: string
  Home :: path

text \<open>A shell and a process are pointers in the source; the model keeps their identity.\<close>

type_synonym shell = nat
type_synonym process = nat

text \<open>
  The calls that change the machine (users, folders, processes) are recorded, in the order
  in which the code issues them.
\<close>

datatype effect =
    EvNewFolder path
  | EvCreateUser user
  | EvDownload string
  | EvChmod string
  | EvChangeOwner string
  | EvUnzip string
  | EvGunzip string
  | EvUntar string
  | EvStartProcess process
  | EvKillProcessTree process
  | EvShellAbort shell
  | EvKillByOwner user
  | EvUserRemove user
  | EvFolderRemove path
  | EvMonitorError string

text \<open>
  Modelled from the spec: \<open>atomics.WaitGroup\<close> (package \<open>runtime/atomics\<close>) is the
  session registry of section 4.2: a count and a closed-for-new-entries flag.  \<open>Add\<close>
  fails once draining has started, \<open>Done\<close> decrements the count, \<open>Drain\<close> stops intake
  without blocking, \<open>Wait\<close> blocks until the count is zero, \<open>WaitAndDrain\<close> blocks until
  the count is zero and then stops intake.  A call that blocks is \<open>None\<close>.
\<close>

record WaitGroup =
  count :: int
  draining :: bool

datatype wg_error = ErrWaitGroupDraining

definition WaitGroup_zero :: WaitGroup where
  "WaitGroup_zero = \<lparr>count = 0, draining = False\<rparr>"

definition Add :: "int \<Rightarrow> WaitGroup \<Rightarrow> wg_error + WaitGroup" where
  "Add delta wg =
     (if draining wg then Inl ErrWaitGroupDraining
      else Inr (wg\<lparr>count := count wg + delta\<rparr>))"

definition Done :: "WaitGroup \<Rightarrow> WaitGroup" where
  "Done wg = wg\<lparr>count := count wg - 1\<rparr>"

definition Drain :: "WaitGroup \<Rightarrow> WaitGroup" where
  "Drain wg = wg\<lparr>draining := True\<rparr>"

definition Wait :: "WaitGroup \<Rightarrow> WaitGroup option" where
  "Wait wg = (if count wg = 0 then Some wg else None)"

definition WaitAndDrain :: "WaitGroup \<Rightarrow> WaitGroup option" where
  "WaitAndDrain wg = (if count wg = 0 then Some (wg\<lparr>draining := True\<rparr>) else None)"

text \<open>
  Modelled from the spec: \<open>atomics.Once\<close> (package \<open>runtime/atomics\<close>) is the one-shot
  resolution gate of sections 5 and 9: a flag guarding a single execution slot.  \<open>Do\<close>
  admits the first caller, which runs its body; every other caller waits for that executor
  and returns without running its own body.  \<open>Wait\<close> blocks until the gate has fired.
  \<open>runs\<close> counts how many bodies the gate has started.
\<close>

record Once =
  fired :: bool
  runs :: nat

definition Once_zero :: Once where
  "Once_zero = \<lparr>fired = False, runs = 0\<rparr>"

subsection \<open>The sandbox\<close>

record resultSet =
  rs_workingFolder :: "path option"
  rs_user :: user
  success :: bool

record sandbox =
  engine_config_CreateUser :: bool
  workingFolder :: "path option"
  user :: user
  process :: process
  env :: "(string \<times> string) list"
  resolve :: Once
  resultSet :: "resultSet option"
  resultErr :: "error option"
  abortErr :: "error option"
  sessions :: WaitGroup
  shells :: "shell list"
  effects :: "effect list"

definition emit :: "effect list \<Rightarrow> sandbox \<Rightarrow> sandbox" where
  "emit es s = s\<lparr>effects := effects s @ es\<rparr>"

text \<open>
  \<open>resolve.Do(body)\<close>: the body runs only when the gate has not fired; the gate fires when
  the body has returned.  A body that never returns keeps the gate, and every caller,
  blocked for ever; a body that panics takes the caller with it.
\<close>

definition resolve_Do :: "(sandbox \<Rightarrow> sandbox outcome) \<Rightarrow> sandbox \<Rightarrow> sandbox outcome" where
  "resolve_Do body s =
     (if fired (resolve s) then Returns s
      else (case body (s\<lparr>resolve := (resolve s)\<lparr>runs := Suc (runs (resolve s))\<rparr>\<rparr>) of
              Returns s' \<Rightarrow> Returns (s'\<lparr>resolve := (resolve s')\<lparr>fired := True\<rparr>\<rparr>)
            | Blocks \<Rightarrow> Blocks
            | Panics err \<Rightarrow> Panics err))"

definition resolve_Wait :: "sandbox \<Rightarrow> sandbox option" where
  "resolve_Wait s = (if fired (resolve s) then Some s else None)"

subsection \<open>Sessions\<close>

text \<open>
  \<open>NewShell\<close>.  \<open>newShell\<close> is defined in another file of the package (\<open>shell.go\<close>);
  its outcome, a started shell or a spawn error, is an argument.  The result is the pair of
  the returned value and the sandbox afterwards.
\<close>

definition NewShell :: "(error + shell) \<Rightarrow> sandbox \<Rightarrow> (error + shell) \<times> sandbox" where
  "NewShell spawned s =
     (case Add 1 (sessions s) of
        Inl _ \<Rightarrow> (Inl ErrSandboxTerminated, s)
      | Inr wg \<Rightarrow>
          (case spawned of
             Inl err \<Rightarrow>
               (Inl (MalformedPayloadError ''Unable to spawn command: '' (Some err)),
                s\<lparr>sessions := Done wg\<rparr>)
           | Inr S \<Rightarrow> (Inr S, s\<lparr>sessions := wg, shells := shells s @ [S]\<rparr>)))"

text \<open>
  The goroutine that \<open>NewShell\<close> starts for a shell \<open>S\<close>, from the moment \<open>S.Wait()\<close> has
  returned: drop \<open>S\<close> from the list and mark the session as done.
\<close>

definition shell_finished :: "shell \<Rightarrow> sandbox \<Rightarrow> sandbox" where
  "shell_finished S s =
     s\<lparr>shells := filter (\<lambda>s2. s2 \<noteq> S) (shells s), sessions := Done (sessions s)\<rparr>"

text \<open>
  Modelled from the spec: \<open>shell.Abort\<close> (\<open>shell.go\<close>) interrupts its session (section 8:
  aborting the sandbox interrupts the open sessions and the active count reaches zero
  before \<open>Abort\<close> returns).  So for each aborted shell \<open>S.Wait()\<close> returns and the
  completion goroutine of \<open>NewShell\<close> runs.
\<close>

definition aborted_shells_finish :: "shell list \<Rightarrow> sandbox \<Rightarrow> sandbox" where
  "aborted_shells_finish ss s = fold shell_finished ss s"

text \<open>
  \<open>abortShells\<close>: stop intake, abort every listed shell, clear the list, then wait for the
  sessions.
\<close>

definition abortShells :: "sandbox \<Rightarrow> sandbox option" where
  "abortShells s =
     (let ss = shells s;
          s1 = emit (map EvShellAbort ss) (s\<lparr>sessions := Drain (sessions s)\<rparr>);
          s2 = s1\<lparr>shells := []\<rparr>;
          s3 = aborted_shells_finish ss s2
      in case Wait (sessions s3) of
           None \<Rightarrow> None
         | Some wg \<Rightarrow> Some (s3\<lparr>sessions := wg\<rparr>))"

subsection \<open>The three resolution bodies\<close>

definition make_resultSet :: "sandbox \<Rightarrow> bool \<Rightarrow> resultSet" where
  "make_resultSet s ok =
     \<lparr>rs_workingFolder = workingFolder s, rs_user = user s, success = ok\<rparr>"

text \<open>\<open>if s.engine.config.CreateUser { system.KillByOwner(s.user) }\<close>\<close>

definition kill_owned :: "sandbox \<Rightarrow> sandbox" where
  "kill_owned s = (if engine_config_CreateUser s then emit [EvKillByOwner (user s)] s else s)"

text \<open>The body passed to \<open>resolve.Do\<close> by \<open>waitForTermination\<close>.\<close>

definition termination_body :: "bool \<Rightarrow> sandbox \<Rightarrow> sandbox outcome" where
  "termination_body ok s =
     (let s1 = kill_owned s
      in Returns (s1\<lparr>resultSet := Some (make_resultSet s1 ok),
                    abortErr := Some ErrSandboxTerminated\<rparr>))"

text \<open>The body passed to \<open>resolve.Do\<close> by \<open>Kill\<close>.\<close>

definition kill_body :: "sandbox \<Rightarrow> sandbox outcome" where
  "kill_body s =
     (case abortShells (emit [EvKillProcessTree (process s)] s) of
        None \<Rightarrow> Blocks
      | Some s1 \<Rightarrow>
          (let s2 = kill_owned s1
           in Returns (s2\<lparr>resultSet := Some (make_resultSet s2 False),
                         abortErr := Some ErrSandboxTerminated\<rparr>)))"

text \<open>
  The removal of the owned user in \<open>Abort\<close>: \<open>KillByOwner\<close>, whose error (first argument,
  if any) is only reported to the monitor, then \<open>s.user.Remove()\<close>, which panics when it
  does not succeed (second argument: the failure, if any).
\<close>

definition remove_user :: "error option \<Rightarrow> error option \<Rightarrow> sandbox \<Rightarrow> sandbox outcome" where
  "remove_user kill_err user_err s =
     (if engine_config_CreateUser s
      then (let s1 = emit ([EvKillByOwner (user s)]
                           @ (case kill_err of
                                None \<Rightarrow> []
                              | Some _ \<Rightarrow>
                                  [EvMonitorError
                                     ''Failed to kill all processes by owner, error: ''])
                           @ [EvUserRemove (user s)]) s
            in case user_err of
                 None \<Rightarrow> Returns s1
               | Some err \<Rightarrow> Panics err)
      else Returns s)"

text \<open>
  The removal of the working folder in \<open>Abort\<close>; a failure of \<open>workingFolder.Remove\<close>
  (the argument, if any) is only reported to the monitor.
\<close>

definition remove_folder :: "error option \<Rightarrow> sandbox \<Rightarrow> sandbox" where
  "remove_folder remove_err s =
     (case workingFolder s of
        None \<Rightarrow> s
      | Some p \<Rightarrow>
          emit ([EvFolderRemove p]
                @ (case remove_err of
                     None \<Rightarrow> []
                   | Some _ \<Rightarrow>
                       [EvMonitorError
                          ''Failed to remove temporary home directory, error: ''])) s)"

text \<open>
  The body passed to \<open>resolve.Do\<close> by \<open>Abort\<close>.  When the removal of the user panics,
  neither the folder is removed nor \<open>resultErr\<close> set.
\<close>

definition abort_body ::
  "error option \<Rightarrow> error option \<Rightarrow> error option \<Rightarrow> sandbox \<Rightarrow> sandbox outcome"
where
  "abort_body kill_err user_err remove_err s =
     (case abortShells (emit [EvKillProcessTree (process s)] s) of
        None \<Rightarrow> Blocks
      | Some s1 \<Rightarrow>
          (case remove_user kill_err user_err s1 of
             Returns s2 \<Rightarrow>
               Returns ((remove_folder remove_err s2)\<lparr>resultErr := Some ErrSandboxAborted\<rparr>)
           | Blocks \<Rightarrow> Blocks
           | Panics err \<Rightarrow> Panics err))"

subsection \<open>The entry points\<close>

text \<open>
  \<open>waitForTermination\<close>, once \<open>process.Wait()\<close> has returned \<open>ok\<close>: wait for the sessions
  and stop intake, then go through the gate.
\<close>

definition waitForTermination :: "bool \<Rightarrow> sandbox \<Rightarrow> sandbox outcome" where
  "waitForTermination ok s =
     (case WaitAndDrain (sessions s) of
        None \<Rightarrow> Blocks
      | Some wg \<Rightarrow> resolve_Do (termination_body ok) (s\<lparr>sessions := wg\<rparr>))"

text \<open>\<open>WaitForResult\<close> only waits and reads; \<open>None\<close> is a caller still waiting.\<close>

definition WaitForResult :: "sandbox \<Rightarrow> (resultSet option \<times> error option) option" where
  "WaitForResult s =
     (case resolve_Wait s of
        None \<Rightarrow> None
      | Some s' \<Rightarrow> Some (resultSet s', resultErr s'))"

definition Kill :: "sandbox \<Rightarrow> (error option \<times> sandbox) outcome" where
  "Kill s =
     (case resolve_Do kill_body s of
        Returns s1 \<Rightarrow>
          (case resolve_Wait s1 of
             None \<Rightarrow> Blocks
           | Some s2 \<Rightarrow> Returns (resultErr s2, s2))
      | Blocks \<Rightarrow> Blocks
      | Panics err \<Rightarrow> Panics err)"

definition Abort ::
  "error option \<Rightarrow> error option \<Rightarrow> error option \<Rightarrow> sandbox \<Rightarrow> (error option \<times> sandbox) outcome"
where
  "Abort kill_err user_err remove_err s =
     (case resolve_Do (abort_body kill_err user_err remove_err) s of
        Returns s1 \<Rightarrow>
          (case resolve_Wait s1 of
             None \<Rightarrow> Blocks
           | Some s2 \<Rightarrow> Returns (abortErr s2, s2))
      | Blocks \<Rightarrow> Blocks
      | Panics err \<Rightarrow> Panics err)"

subsection \<open>Construction\<close>

text \<open>
  \<open>filepath.Ext\<close>: scan backwards from the end of the path, stop at a path separator,
  return the suffix that starts at the first dot met.  The scan runs over the reversed
  string; the second argument is the part already passed.
\<close>

fun Ext_scan :: "string \<Rightarrow> string \<Rightarrow> string" where
  "Ext_scan [] seen = []"
| "Ext_scan (c # cs) seen =
     (if c = CHR ''/'' then []
      else if c = CHR ''.'' then c # seen
      else Ext_scan cs (c # seen))"

definition Ext :: "string \<Rightarrow> string" where
  "Ext p = Ext_scan (rev p) []"

text \<open>
  What the machine answers to each call that \<open>newSandbox\<close> and \<open>fetchContext\<close> make:
  \<open>TemporaryStorage.NewFolder\<close>, \<open>system.CreateUser\<close>, \<open>system.CurrentUser\<close>,
  \<open>util.Download\<close>, \<open>os.Chmod\<close>, \<open>system.ChangeOwner\<close>, the three unpackers and
  \<open>system.StartProcess\<close>.  \<open>Gunzip\<close> returns the unpacked file's name and an error.
  \<open>UserRemove\<close> is \<open>user.Remove()\<close>, which panics when it does not succeed: it answers
  with the failure, if any.
\<close>

record os_env =
  NewFolder :: "error + path"
  CreateUser :: "path \<Rightarrow> error + user"
  CurrentUser :: "error + user"
  Download :: "string \<Rightarrow> path \<Rightarrow> error + string"
  Chmod :: "string \<Rightarrow> error option"
  ChangeOwner :: "string \<Rightarrow> user \<Rightarrow> error option"
  Unzip :: "string \<Rightarrow> error option"
  Gunzip :: "string \<Rightarrow> string \<times> error option"
  Untar :: "string \<Rightarrow> error option"
  StartProcess :: "string list \<Rightarrow> user \<Rightarrow> error + process"
  UserRemove :: "user \<Rightarrow> error option"

record sandboxBuilder =
  b_engine_config_CreateUser :: bool
  b_payload_Context :: string
  b_payload_Command :: "string list"
  b_env :: "(string \<times> string) list"

text \<open>
  The \<open>switch\<close> of \<open>fetchContext\<close> on the extension of the downloaded file: the name of
  the unpacked file, the error, and the calls made.  It has no default case.
\<close>

definition unpack_by_extension :: "os_env \<Rightarrow> string \<Rightarrow> string \<times> error option \<times> effect list" where
  "unpack_by_extension os filename =
     (if Ext filename = ''.zip'' then ([], Unzip os filename, [EvUnzip filename])
      else if Ext filename = ''.gz''
           then (fst (Gunzip os filename), snd (Gunzip os filename), [EvGunzip filename])
      else ([], None, []))"

definition fetchContext :: "os_env \<Rightarrow> string \<Rightarrow> user \<Rightarrow> error option \<times> effect list" where
  "fetchContext os context usr =
     (case Download os context (Home usr) of
        Inl err \<Rightarrow> (Some (Errorf ''Error downloading '' (Some err)), [])
      | Inr filename \<Rightarrow>
          (case Chmod os filename of
             Some err \<Rightarrow>
               (Some (Errorf ''Error setting file permissions: '' (Some err)),
                [EvDownload filename])
           | None \<Rightarrow>
               (case ChangeOwner os filename usr of
                  Some err \<Rightarrow> (Some err, [EvDownload filename, EvChmod filename])
                | None \<Rightarrow>
                    (case unpack_by_extension os filename of
                       (unpackedFile, unpack_err, evs) \<Rightarrow>
                         (let made = [EvDownload filename, EvChmod filename,
                                      EvChangeOwner filename] @ evs
                          in case unpack_err of
                               Some err \<Rightarrow> (Some (Errorf ''Error unpacking '' (Some err)), made)
                             | None \<Rightarrow>
                                 (if Ext unpackedFile = ''.tar''
                                  then (case Untar os unpackedFile of
                                          Some err \<Rightarrow>
                                            (Some (Errorf ''Error unpacking '' (Some err)),
                                             made @ [EvUntar unpackedFile])
                                        | None \<Rightarrow> (None, made @ [EvUntar unpackedFile]))
                                  else (None, made)))))))"

text \<open>
  The deferred function of \<open>newSandbox\<close>, on a return with \<open>err \<noteq> nil\<close>.  The arguments
  are the user and the folder held at that moment, the error on its way to the caller and
  the calls made so far.  When the engine creates users and one was created,
  \<open>user.Remove()\<close> is called; if it panics, the error never reaches the caller and the
  folder stays.  Otherwise the folder, when one was allocated, is removed (the error of
  that removal is discarded) and the error is returned.
\<close>

definition deferred_cleanup ::
  "os_env \<Rightarrow> bool \<Rightarrow> user option \<Rightarrow> path option \<Rightarrow> error \<Rightarrow> effect list
   \<Rightarrow> (error + sandbox) outcome \<times> effect list"
where
  "deferred_cleanup os create_user usr folder err evs =
     (let folder_removal = (case folder of None \<Rightarrow> [] | Some p \<Rightarrow> [EvFolderRemove p])
      in case (if create_user then usr else None) of
           None \<Rightarrow> (Returns (Inl err), evs @ folder_removal)
         | Some u \<Rightarrow>
             (case UserRemove os u of
                Some failure \<Rightarrow> (Panics failure, evs @ [EvUserRemove u])
              | None \<Rightarrow> (Returns (Inl err), evs @ [EvUserRemove u] @ folder_removal)))"

text \<open>
  The part of \<open>newSandbox\<close> that follows the choice of the user.  Every return with an
  error leaves \<open>err\<close> set, so the deferred function runs its removals.
\<close>

definition newSandbox_with_user ::
  "os_env \<Rightarrow> sandboxBuilder \<Rightarrow> path option \<Rightarrow> user \<Rightarrow> effect list
   \<Rightarrow> (error + sandbox) outcome \<times> effect list"
where
  "newSandbox_with_user os b folder usr evs =
     (let fetched = (if b_payload_Context b \<noteq> []
                     then fetchContext os (b_payload_Context b) usr
                     else (None, []))
      in case fst fetched of
           Some err \<Rightarrow>
             deferred_cleanup os (b_engine_config_CreateUser b) (Some usr) folder
               (MalformedPayloadError ''Error downloading '' (Some err))
               (evs @ snd fetched)
         | None \<Rightarrow>
             (case StartProcess os (b_payload_Command b) usr of
                Inl err \<Rightarrow>
                  deferred_cleanup os (b_engine_config_CreateUser b) (Some usr) folder
                    (MalformedPayloadError ''Unable to start specified command: '' (Some err))
                    (evs @ snd fetched)
              | Inr p \<Rightarrow>
                  (Returns
                     (Inr \<lparr>engine_config_CreateUser = b_engine_config_CreateUser b,
                           workingFolder = folder,
                           user = usr,
                           process = p,
                           env = b_env b,
                           resolve = Once_zero,
                           resultSet = None,
                           resultErr = None,
                           abortErr = None,
                           sessions = WaitGroup_zero,
                           shells = [],
                           effects = evs @ snd fetched @ [EvStartProcess p]\<rparr>),
                   evs @ snd fetched @ [EvStartProcess p])))"

definition newSandbox ::
  "os_env \<Rightarrow> sandboxBuilder \<Rightarrow> (error + sandbox) outcome \<times> effect list"
where
  "newSandbox os b =
     (if b_engine_config_CreateUser b
      then (case NewFolder os of
              Inl err \<Rightarrow>
                deferred_cleanup os True None None
                  (Errorf ''Failed to temporary folder, error: '' (Some err))
                  [EvMonitorError ''Failed to temporary folder, error: '']
            | Inr folder \<Rightarrow>
                (case CreateUser os folder of
                   Inl err \<Rightarrow>
                     deferred_cleanup os True None (Some folder)
                       (Errorf ''Failed to create temporary system user, error: '' (Some err))
                       [EvNewFolder folder]
                 | Inr usr \<Rightarrow>
                     newSandbox_with_user os b (Some folder) usr
                       [EvNewFolder folder, EvCreateUser usr]))
      else (case CurrentUser os of
              Inl err \<Rightarrow> deferred_cleanup os False None None err []
            | Inr usr \<Rightarrow> newSandbox_with_user os b None usr []))"

section \<open>QEMU engine: \<open>engines/qemu/vm/vm.go\<close>\<close>

subsection \<open>Collaborators of the virtual machine\<close>

text \<open>
  \<open>Network\<close> and \<open>Image\<close> are interfaces declared in other files of the package.  Of a
  network only its identity and the handler it holds are visible here; of an image only
  its identity.
\<close>

type_synonym handler = nat

record network =
  net_id :: nat
  net_handler :: "handler option"

text \<open>
  Modelled from the spec: the network attachment accepts a request handler for its
  metadata service (section 6); \<open>SetHandler\<close> installs it.
\<close>

definition SetHandler :: "handler \<Rightarrow> network \<Rightarrow> network" where
  "SetHandler h n = n\<lparr>net_handler := Some h\<rparr>"

type_synonym image = nat

text \<open>What the virtual machine does to the outside, in the order in which it does it.\<close>

datatype vm_event =
    LogError string
  | QemuStart
  | CloseStdoutWriter
  | CloseStderrWriter
  | NetworkRelease network
  | ImageRelease image
  | RemoveAll path
  | CloseDone
  | ProcessKill

text \<open>The three ways in which this code can panic.\<close>

datatype vm_panic =
    AlreadyStarted
  | CloseOfClosedChannel
  | NilDereference

datatype qemu_state = NotStarted | Running | Exited

text \<open>
  \<open>qemuDone\<close> and \<open>Done\<close> are the two ends of one channel; \<open>Done_closed\<close> says whether
  it has been closed.  \<open>qemu\<close> is the state of the process behind \<open>vm.qemu\<close>.
\<close>

record VirtualMachine =
  started :: bool
  network :: "network option"
  image' :: "image option"
  socketFolder :: string
  qemu :: qemu_state
  Done_closed :: bool
  Error :: "error option"
  vm_log :: "vm_event list"

definition vncSocketFile :: string where
  "vncSocketFile = ''vnc.sock''"

definition qmpSocketFile :: string where
  "qmpSocketFile = ''qmp.sock''"

definition logged :: "vm_event list \<Rightarrow> VirtualMachine \<Rightarrow> VirtualMachine" where
  "logged es vm = vm\<lparr>vm_log := vm_log vm @ es\<rparr>"

text \<open>
  \<open>NewVirtualMachine\<close>, without the QEMU argument list, which no later code reads back.
  \<open>filepath.Join\<close> and the fresh slug are arguments.  The caller hands over a network and
  an image; the fields become nil only when the exit watcher releases them.
\<close>

definition NewVirtualMachine ::
  "(string \<Rightarrow> string \<Rightarrow> string) \<Rightarrow> string \<Rightarrow> image \<Rightarrow> network \<Rightarrow> string \<Rightarrow> VirtualMachine"
where
  "NewVirtualMachine join slug img net folder =
     \<lparr>started = False,
      network = Some net,
      image' = Some img,
      socketFolder = join folder slug,
      qemu = NotStarted,
      Done_closed = False,
      Error = None,
      vm_log = []\<rparr>"

definition SetHTTPHandler :: "handler \<Rightarrow> VirtualMachine \<Rightarrow> VirtualMachine" where
  "SetHTTPHandler h vm =
     (case network vm of
        None \<Rightarrow> vm
      | Some n \<Rightarrow> vm\<lparr>network := Some (SetHandler h n)\<rparr>)"

text \<open>\<open>close(vm.qemuDone)\<close>: closing a closed channel panics.\<close>

definition close_qemuDone :: "VirtualMachine \<Rightarrow> vm_panic + VirtualMachine" where
  "close_qemuDone vm =
     (if Done_closed vm then Inl CloseOfClosedChannel
      else Inr ((logged [CloseDone] vm)\<lparr>Done_closed := True\<rparr>))"

subsection \<open>Readiness monitor\<close>

text \<open>
  The goroutine of \<open>waitForSockets\<close>.  Each round of its loop takes whichever case of the
  \<open>select\<close> comes first: a file-system event, the done-signal, the 90 second timer that is
  armed afresh in every round, or a watcher error.
\<close>

datatype fs_op = OpCreate | OpWrite | OpRemove | OpRename | OpChmod

datatype monitor_event =
    FsEvent fs_op string
  | DoneFired
  | TimerFired
  | FsError error

datatype monitor_result =
    BothSeen
  | Delivered error
  | Stopped
  | Waiting

definition timeout_error :: error where
  "timeout_error = Errorf ''vnc and qmp sockets didn't show up in 90s'' None"

fun monitor_loop :: "bool \<Rightarrow> bool \<Rightarrow> monitor_event list \<Rightarrow> monitor_result" where
  "monitor_loop vncReady qmpReady evs =
     (if vncReady \<and> qmpReady then BothSeen
      else (case evs of
              [] \<Rightarrow> Waiting
            | FsEvent op name # rest \<Rightarrow>
                (if op = OpCreate
                 then monitor_loop (if name = vncSocketFile then True else vncReady)
                                   (if name = qmpSocketFile then True else qmpReady) rest
                 else monitor_loop vncReady qmpReady rest)
            | DoneFired # rest \<Rightarrow> Stopped
            | TimerFired # rest \<Rightarrow> Delivered timeout_error
            | FsError err # rest \<Rightarrow>
                Delivered (Errorf ''Error monitoring file system, error: '' (Some err))))"

definition monitor :: "monitor_event list \<Rightarrow> monitor_result" where
  "monitor evs = monitor_loop False False evs"

subsection \<open>Exit watcher, Kill and Start\<close>

text \<open>
  The goroutine started by \<open>Start\<close> after a successful spawn, from the moment
  \<open>vm.qemu.Wait()\<close> has returned \<open>werr\<close>.  It holds the lock \<open>vm.m\<close> throughout.
\<close>

definition exit_watcher :: "error option \<Rightarrow> VirtualMachine \<Rightarrow> vm_panic + VirtualMachine" where
  "exit_watcher werr vm =
     (let vm1 = vm\<lparr>qemu := Exited, Error := (if Error vm = None then werr else Error vm)\<rparr>;
          vm2 = logged [CloseStdoutWriter, CloseStderrWriter] vm1
      in case network vm2 of
           None \<Rightarrow> Inl NilDereference
         | Some n \<Rightarrow>
             (let vm3 = (logged [NetworkRelease n] vm2)\<lparr>network := None\<rparr>
              in case image' vm3 of
                   None \<Rightarrow> Inl NilDereference
                 | Some i \<Rightarrow>
                     (let vm4 = (logged [ImageRelease i] vm3)\<lparr>image' := None\<rparr>;
                          vm5 = (logged [RemoveAll (socketFolder vm4)] vm4)\<lparr>socketFolder := []\<rparr>
                      in close_qemuDone vm5)))"

definition Kill_vm :: "VirtualMachine \<Rightarrow> VirtualMachine" where
  "Kill_vm vm = (if Done_closed vm then vm else logged [ProcessKill] vm)"

text \<open>
  How the final \<open>select\<close> of \<open>Start\<close> is resolved.  The monitor's answer arrives either
  while the process is still alive or after the exit watcher has already run; or the
  done-signal is taken.
\<close>

datatype select_case =
    SocketsReady "error option"
  | SocketsReadyAfterExit "error option"
  | DoneFirst

text \<open>
  What happens around one call of \<open>Start\<close>: the error of \<open>waitForSockets\<close> (watcher
  set-up), the error of \<open>vm.qemu.Start()\<close>, the case taken by the \<open>select\<close>, and the
  error returned by \<open>vm.qemu.Wait()\<close>.
\<close>

record vm_env =
  waitForSockets_err :: "error option"
  qemu_Start_err :: "error option"
  selected :: select_case
  qemu_Wait_err :: "error option"

text \<open>The branch \<open>case err := <-socketsReady\<close> of the \<open>select\<close>.\<close>

definition on_socketsReady :: "error option \<Rightarrow> VirtualMachine \<Rightarrow> VirtualMachine" where
  "on_socketsReady r vm =
     (case r of
        None \<Rightarrow> vm
      | Some err \<Rightarrow>
          (let vm1 = logged [LogError ''Error monitoring socketFolder''] vm;
               vm2 = (if Error vm1 \<noteq> None then vm1\<lparr>Error := Some err\<rparr> else vm1)
           in Kill_vm vm2))"

definition Start :: "vm_env \<Rightarrow> VirtualMachine \<Rightarrow> vm_panic + VirtualMachine" where
  "Start e vm =
     (if started vm then Inl AlreadyStarted
      else
        (let vm1 = vm\<lparr>started := True\<rparr>
         in case waitForSockets_err e of
              Some err \<Rightarrow>
                close_qemuDone
                  ((logged [LogError ''Error configuring socketFolder monitoring''] vm1)
                     \<lparr>Error := Some err\<rparr>)
            | None \<Rightarrow>
                (let vm2 = (logged [QemuStart] vm1)\<lparr>Error := qemu_Start_err e\<rparr>
                 in if Error vm2 \<noteq> None then close_qemuDone vm2
                    else
                      (let vm3 = vm2\<lparr>qemu := Running\<rparr>
                       in case selected e of
                            SocketsReady r \<Rightarrow> Inr (on_socketsReady r vm3)
                          | SocketsReadyAfterExit r \<Rightarrow>
                              (case exit_watcher (qemu_Wait_err e) vm3 of
                                 Inl p \<Rightarrow> Inl p
                               | Inr vm4 \<Rightarrow> Inr (on_socketsReady r vm4))
                          | DoneFirst \<Rightarrow> exit_watcher (qemu_Wait_err e) vm3))))"

text \<open>
  The rest of the machine's life after \<open>Start\<close> has returned: a process that is still
  running ends (by itself or through \<open>Kill\<close>) and the exit watcher runs.
\<close>

definition finish :: "vm_env \<Rightarrow> VirtualMachine \<Rightarrow> vm_panic + VirtualMachine" where
  "finish e vm = (if qemu vm = Running then exit_watcher (qemu_Wait_err e) vm else Inr vm)"

definition lifetime :: "vm_env \<Rightarrow> VirtualMachine \<Rightarrow> vm_panic + VirtualMachine" where
  "lifetime e vm = (case Start e vm of Inl p \<Rightarrow> Inl p | Inr vm' \<Rightarrow> finish e vm')"

section \<open>QEMU image inspection\<close>

type_synonym imageFormat = int

definition imageRawFormat :: imageFormat where
  "imageRawFormat = 0"

definition imageQCOW2Format :: imageFormat where
  "imageQCOW2Format = 1"

record snapshot =
  snap_Name :: string
  snap_ID :: string
  StateSize :: "64 word"

record information =
  File :: string
  Format :: string
  VirtualSize :: "64 word"
  ClusterSize :: "64 word"
  ActualSize :: "64 word"
  DirtyFlag :: bool
  BackingFormat :: string
  BackingFile :: string
  Snapshots :: "snapshot list"

record command =
  cmd_name :: string
  cmd_args :: "string list"
  cmd_Dir :: string

text \<open>
  The library calls of \<open>inspectImageFile\<close>: \<open>filepath.Base\<close>, \<open>filepath.Dir\<close>, the run
  of the subprocess (\<open>p.Output()\<close> returns the bytes and an error) and \<open>json.Unmarshal\<close>
  into the \<open>information\<close> schema.
\<close>

record image_env =
  Base :: "string \<Rightarrow> string"
  Dir :: "string \<Rightarrow> string"
  Output :: "command \<Rightarrow> string \<times> error option"
  Unmarshal :: "string \<Rightarrow> error + information"

definition qemu_img_info :: "image_env \<Rightarrow> string \<Rightarrow> imageFormat \<Rightarrow> command" where
  "qemu_img_info e imageFile format =
     \<lparr>cmd_name = ''qemu-img'',
      cmd_args = [''info'', ''-f'', (if format = imageQCOW2Format then ''qcow2'' else ''raw''),
                  ''--output'', ''json'', ''--'', Base e imageFile],
      cmd_Dir = Dir e imageFile\<rparr>"

definition inspectImageFile :: "image_env \<Rightarrow> string \<Rightarrow> imageFormat \<Rightarrow> information option" where
  "inspectImageFile e imageFile format =
     (case Output e (qemu_img_info e imageFile format) of
        (data, Some err) \<Rightarrow> None
      | (data, None) \<Rightarrow>
          (case Unmarshal e data of
             Inl err \<Rightarrow> None
           | Inr info \<Rightarrow> Some info))"

section \<open>Schedules of a sandbox\<close>

text \<open>
  The gate serialises everything that resolves a sandbox, so an interleaving of callers is
  the order in which they reach the gate.  A schedule lists, in that order, calls of
  \<open>Kill\<close> and \<open>Abort\<close>, the watcher getting past \<open>process.Wait()\<close>, calls of
  \<open>NewShell\<close>, and shells ending by themselves.  A step after which the schedule cannot
  go on (the caller blocks for ever or panics, or the shell is not attached) gives \<open>None\<close>.
\<close>

datatype call =
    CallKill
  | CallAbort "error option" "error option" "error option"
  | ProcessExit bool
  | CallNewShell "error + shell"
  | ShellExit shell

fun step :: "call \<Rightarrow> sandbox \<Rightarrow> sandbox option" where
  "step CallKill s = map_option snd (returned (Kill s))"
| "step (CallAbort kill_err user_err remove_err) s =
     map_option snd (returned (Abort kill_err user_err remove_err s))"
| "step (ProcessExit ok) s = returned (waitForTermination ok s)"
| "step (CallNewShell spawned) s = Some (snd (NewShell spawned s))"
| "step (ShellExit S) s = (if S \<in> set (shells s) then Some (shell_finished S s) else None)"

fun run :: "call list \<Rightarrow> sandbox \<Rightarrow> sandbox option" where
  "run [] s = Some s"
| "run (c # cs) s = (case step c s of None \<Rightarrow> None | Some s' \<Rightarrow> run cs s')"

text \<open>
  The call of a schedule whose step makes the gate fire, if there is one: the caller that
  wins the gate and runs its body.
\<close>

fun winner :: "call list \<Rightarrow> sandbox \<Rightarrow> call option" where
  "winner [] s = None"
| "winner (c # cs) s =
     (case step c s of
        None \<Rightarrow> None
      | Some s' \<Rightarrow>
          (if \<not> fired (resolve s) \<and> fired (resolve s') then Some c else winner cs s'))"

fun is_abort :: "call option \<Rightarrow> bool" where
  "is_abort (Some (CallAbort kill_err user_err remove_err)) = True"
| "is_abort w = False"

section \<open>Concrete inputs\<close>

definition task_user :: user where
  "task_user = \<lparr>Name = ''task'', Home = ''/home/task''\<rparr>"

text \<open>A machine on which every call succeeds and the download is a shell script.\<close>

definition script_os :: os_env where
  "script_os =
     \<lparr>NewFolder = Inr ''/tmp/work'',
      CreateUser = (\<lambda>p. Inr task_user),
      CurrentUser = Inr task_user,
      Download = (\<lambda>url dir. Inr (dir @ ''/run.sh'')),
      Chmod = (\<lambda>f. None),
      ChangeOwner = (\<lambda>f u. None),
      Unzip = (\<lambda>f. None),
      Gunzip = (\<lambda>f. ([], None)),
      Untar = (\<lambda>f. None),
      StartProcess = (\<lambda>args u. Inr 7),
      UserRemove = (\<lambda>u. None)\<rparr>"

text \<open>The same machine, except that the download is a zip archive that does not unpack.\<close>

definition broken_zip_os :: os_env where
  "broken_zip_os =
     script_os\<lparr>Download := (\<lambda>url dir. Inr (dir @ ''/context.zip'')),
               Unzip := (\<lambda>f. Some (OSError ''zip: not a valid zip file''))\<rparr>"

text \<open>The archive does not unpack and the user cannot be removed either.\<close>

definition stuck_user_os :: os_env where
  "stuck_user_os = broken_zip_os\<lparr>UserRemove := (\<lambda>u. Some (OSError ''user is logged in''))\<rparr>"

definition script_builder :: sandboxBuilder where
  "script_builder =
     \<lparr>b_engine_config_CreateUser = True,
      b_payload_Context = ''https://example.org/run.sh'',
      b_payload_Command = [''./run.sh''],
      b_env = []\<rparr>"

text \<open>A sandbox as \<open>newSandbox\<close> leaves it, with an owned user and folder.\<close>

definition fresh_sandbox :: sandbox where
  "fresh_sandbox =
     \<lparr>engine_config_CreateUser = True,
      workingFolder = Some ''/tmp/work'',
      user = task_user,
      process = 7,
      env = [],
      resolve = Once_zero,
      resultSet = None,
      resultErr = None,
      abortErr = None,
      sessions = WaitGroup_zero,
      shells = [],
      effects = []\<rparr>"

definition demo_network :: network where
  "demo_network = \<lparr>net_id = 1, net_handler = None\<rparr>"

definition demo_join :: "string \<Rightarrow> string \<Rightarrow> string" where
  "demo_join a b = a @ ''/'' @ b"

definition demo_vm :: VirtualMachine where
  "demo_vm = NewVirtualMachine demo_join ''slug'' 3 demo_network ''/run/qemu''"

text \<open>
  The sockets never show up: the watcher is set up, QEMU starts, the monitor's timer fires
  while QEMU is still running, and the killed process makes \<open>Wait\<close> return an error.
\<close>

definition timeout_env :: vm_env where
  "timeout_env =
     \<lparr>waitForSockets_err = None,
      qemu_Start_err = None,
      selected = SocketsReady (Some timeout_error),
      qemu_Wait_err = Some (OSError ''signal: killed'')\<rparr>"

text \<open>The watcher cannot be set up; QEMU cannot be started.\<close>

definition no_watch_env :: vm_env where
  "no_watch_env =
     timeout_env\<lparr>waitForSockets_err :=
                   Some (Errorf ''Failed to monitor socket folder, error: ''
                           (Some (OSError ''no such file or directory'')))\<rparr>"

definition no_spawn_env :: vm_env where
  "no_spawn_env = timeout_env\<lparr>qemu_Start_err := Some (OSError ''executable file not found'')\<rparr>"

definition demo_info :: information where
  "demo_info =
     \<lparr>File = ''disk.img'', Format = ''qcow2'', VirtualSize = 1024, ClusterSize = 64,
      ActualSize = 512, DirtyFlag = False, BackingFormat = [], BackingFile = [],
      Snapshots = []\<rparr>"

text \<open>A run of \<open>qemu-img\<close> that succeeds and whose output parses.\<close>

definition demo_image_env :: image_env where
  "demo_image_env =
     \<lparr>Base = (\<lambda>p. ''disk.img''),
      Dir = (\<lambda>p. ''/images''),
      Output = (\<lambda>c. (''{}'', None)),
      Unmarshal = (\<lambda>d. Inr demo_info)\<rparr>"

text \<open>A run that fails, and a run whose output does not parse.\<close>

definition failing_image_env :: image_env where
  "failing_image_env =
     demo_image_env\<lparr>Output := (\<lambda>c. ([], Some (OSError ''exit status 1'')))\<rparr>"

definition garbled_image_env :: image_env where
  "garbled_image_env =
     demo_image_env\<lparr>Unmarshal := (\<lambda>d. Inl (OSError ''unexpected end of JSON input''))\<rparr>"

section \<open>The sandbox is resolved once\<close>

subsection \<open>What each piece leaves untouched\<close>

lemma returned_Some: "returned x = Some y \<longleftrightarrow> x = Returns y"
  by (cases x) auto

lemma fold_shell_finished_fields:
  "resolve (fold shell_finished ss s) = resolve s
   \<and> resultSet (fold shell_finished ss s) = resultSet s
   \<and> resultErr (fold shell_finished ss s) = resultErr s
   \<and> abortErr (fold shell_finished ss s) = abortErr s
   \<and> effects (fold shell_finished ss s) = effects s
   \<and> workingFolder (fold shell_finished ss s) = workingFolder s
   \<and> user (fold shell_finished ss s) = user s
   \<and> process (fold shell_finished ss s) = process s
   \<and> engine_config_CreateUser (fold shell_finished ss s) = engine_config_CreateUser s
   \<and> draining (sessions (fold shell_finished ss s)) = draining (sessions s)
   \<and> count (sessions (fold shell_finished ss s)) = count (sessions s) - int (length ss)"
  by (induction ss arbitrary: s) (simp_all add: shell_finished_def Done_def)

lemma abortShells_fields:
  assumes "abortShells s = Some s'"
  shows "resolve s' = resolve s" "resultSet s' = resultSet s" "resultErr s' = resultErr s"
    "abortErr s' = abortErr s" "workingFolder s' = workingFolder s" "user s' = user s"
    "process s' = process s" "engine_config_CreateUser s' = engine_config_CreateUser s"
    "draining (sessions s')" "count (sessions s') = 0"
    "effects s' = effects s @ map EvShellAbort (shells s)"
  using assms
  by (auto simp: abortShells_def aborted_shells_finish_def Let_def Wait_def emit_def Drain_def
      fold_shell_finished_fields split: if_splits)

lemma abortShells_returns:
  assumes "count (sessions s) = int (length (shells s))"
  shows "\<exists>s'. abortShells s = Some s'"
  using assms
  by (simp add: abortShells_def aborted_shells_finish_def Let_def Wait_def emit_def Drain_def
      fold_shell_finished_fields)

lemma kill_body_fields:
  assumes "kill_body s = Returns s'"
  shows "resolve s' = resolve s" "resultErr s' = resultErr s"
    "abortErr s' = Some ErrSandboxTerminated" "resultSet s' \<noteq> None"
    "draining (sessions s')" "count (sessions s') = 0"
proof -
  from assms obtain s1 where a: "abortShells (emit [EvKillProcessTree (process s)] s) = Some s1"
    and s': "s' = (kill_owned s1)\<lparr>resultSet := Some (make_resultSet (kill_owned s1) False),
                                 abortErr := Some ErrSandboxTerminated\<rparr>"
    by (auto simp: kill_body_def Let_def split: option.splits)
  note f = abortShells_fields [OF a]
  show "resolve s' = resolve s" "resultErr s' = resultErr s"
    "abortErr s' = Some ErrSandboxTerminated" "resultSet s' \<noteq> None"
    "draining (sessions s')" "count (sessions s') = 0"
    using f by (simp_all add: s' emit_def kill_owned_def)
qed

lemma kill_body_no_panic: "kill_body s \<noteq> Panics err"
  by (simp add: kill_body_def Let_def split: option.splits)

lemma remove_user_fields:
  assumes "remove_user ke ue s = Returns s'"
  shows "resolve s' = resolve s" "resultSet s' = resultSet s" "resultErr s' = resultErr s"
    "abortErr s' = abortErr s" "sessions s' = sessions s" "workingFolder s' = workingFolder s"
    "engine_config_CreateUser s \<longrightarrow> ue = None"
  using assms
  by (auto simp: remove_user_def Let_def emit_def split: if_splits option.splits)

lemma remove_folder_fields:
  "resolve (remove_folder re s) = resolve s" "resultSet (remove_folder re s) = resultSet s"
  "resultErr (remove_folder re s) = resultErr s" "abortErr (remove_folder re s) = abortErr s"
  "sessions (remove_folder re s) = sessions s"
  by (simp_all add: remove_folder_def emit_def split: option.splits)

lemma abort_body_fields:
  assumes "abort_body ke ue re s = Returns s'"
  shows "resolve s' = resolve s" "resultErr s' = Some ErrSandboxAborted"
    "abortErr s' = abortErr s" "resultSet s' = resultSet s"
    "draining (sessions s')" "count (sessions s') = 0"
    "engine_config_CreateUser s \<longrightarrow> ue = None"
proof -
  from assms obtain s1 s2
    where a: "abortShells (emit [EvKillProcessTree (process s)] s) = Some s1"
      and u: "remove_user ke ue s1 = Returns s2"
      and s': "s' = (remove_folder re s2)\<lparr>resultErr := Some ErrSandboxAborted\<rparr>"
    by (auto simp: abort_body_def split: option.splits outcome.splits)
  note f = abortShells_fields [OF a]
  note g = remove_user_fields [OF u]
  show "resolve s' = resolve s" "resultErr s' = Some ErrSandboxAborted"
    "abortErr s' = abortErr s" "resultSet s' = resultSet s"
    "draining (sessions s')" "count (sessions s') = 0"
    "engine_config_CreateUser s \<longrightarrow> ue = None"
    using f g by (simp_all add: s' remove_folder_fields emit_def)
qed

lemma termination_body_fields:
  assumes "termination_body ok s = Returns s'"
  shows "resolve s' = resolve s" "resultErr s' = resultErr s"
    "abortErr s' = Some ErrSandboxTerminated" "resultSet s' \<noteq> None"
    "sessions s' = sessions s"
  using assms
  by (auto simp: termination_body_def Let_def emit_def kill_owned_def split: if_splits)

subsection \<open>The entry points, before and after the gate has fired\<close>

lemma Kill_fired: "fired (resolve s) \<Longrightarrow> Kill s = Returns (resultErr s, s)"
  by (simp add: Kill_def resolve_Do_def resolve_Wait_def)

lemma Abort_fired: "fired (resolve s) \<Longrightarrow> Abort ke ue re s = Returns (abortErr s, s)"
  by (simp add: Abort_def resolve_Do_def resolve_Wait_def)

lemma WaitForResult_fired:
  "fired (resolve s) \<Longrightarrow> WaitForResult s = Some (resultSet s, resultErr s)"
  by (simp add: WaitForResult_def resolve_Wait_def)

lemma WaitForResult_waits: "\<not> fired (resolve s) \<Longrightarrow> WaitForResult s = None"
  by (simp add: WaitForResult_def resolve_Wait_def)

lemma Kill_no_panic: "Kill s \<noteq> Panics err"
  using kill_body_no_panic
  by (auto simp: Kill_def resolve_Do_def split: outcome.splits option.splits)

lemma Kill_wins:
  assumes "\<not> fired (resolve s)" and "Kill s = Returns (r, s')"
  shows "r = resultErr s" "resultErr s' = resultErr s" "fired (resolve s')"
    "runs (resolve s') = Suc (runs (resolve s))" "abortErr s' = Some ErrSandboxTerminated"
    "resultSet s' \<noteq> None" "draining (sessions s')"
proof -
  from assms obtain s1
    where b: "kill_body (s\<lparr>resolve := (resolve s)\<lparr>runs := Suc (runs (resolve s))\<rparr>\<rparr>)
              = Returns s1"
      and s': "s' = s1\<lparr>resolve := (resolve s1)\<lparr>fired := True\<rparr>\<rparr>" and r: "r = resultErr s'"
    by (auto simp: Kill_def resolve_Do_def resolve_Wait_def
        split: option.splits outcome.splits if_splits)
  note f = kill_body_fields [OF b]
  show "r = resultErr s" "resultErr s' = resultErr s" "fired (resolve s')"
    "runs (resolve s') = Suc (runs (resolve s))" "abortErr s' = Some ErrSandboxTerminated"
    "resultSet s' \<noteq> None" "draining (sessions s')"
    using f by (simp_all add: s' r)
qed

lemma Abort_wins:
  assumes "\<not> fired (resolve s)" and "Abort ke ue re s = Returns (r, s')"
  shows "r = abortErr s" "abortErr s' = abortErr s" "fired (resolve s')"
    "runs (resolve s') = Suc (runs (resolve s))" "resultErr s' = Some ErrSandboxAborted"
    "resultSet s' = resultSet s" "draining (sessions s')"
proof -
  from assms obtain s1
    where b: "abort_body ke ue re (s\<lparr>resolve := (resolve s)\<lparr>runs := Suc (runs (resolve s))\<rparr>\<rparr>)
              = Returns s1"
      and s': "s' = s1\<lparr>resolve := (resolve s1)\<lparr>fired := True\<rparr>\<rparr>" and r: "r = abortErr s'"
    by (auto simp: Abort_def resolve_Do_def resolve_Wait_def
        split: option.splits outcome.splits if_splits)
  note f = abort_body_fields [OF b]
  show "r = abortErr s" "abortErr s' = abortErr s" "fired (resolve s')"
    "runs (resolve s') = Suc (runs (resolve s))" "resultErr s' = Some ErrSandboxAborted"
    "resultSet s' = resultSet s" "draining (sessions s')"
    using f by (simp_all add: s' r)
qed

lemma waitForTermination_fired:
  assumes "fired (resolve s)" and "waitForTermination ok s = Returns s'"
  shows "resolve s' = resolve s" "resultErr s' = resultErr s" "abortErr s' = abortErr s"
    "resultSet s' = resultSet s" "effects s' = effects s" "draining (sessions s')"
  using assms
  by (auto simp: waitForTermination_def WaitAndDrain_def resolve_Do_def
      split: option.splits if_splits)

lemma waitForTermination_wins:
  assumes "\<not> fired (resolve s)" and "waitForTermination ok s = Returns s'"
  shows "resultErr s' = resultErr s" "fired (resolve s')"
    "runs (resolve s') = Suc (runs (resolve s))" "abortErr s' = Some ErrSandboxTerminated"
    "resultSet s' \<noteq> None" "draining (sessions s')"
proof -
  from assms obtain s1
    where b: "termination_body ok
                (s\<lparr>sessions := (sessions s)\<lparr>draining := True\<rparr>,
                   resolve := (resolve s)\<lparr>runs := Suc (runs (resolve s))\<rparr>\<rparr>) = Returns s1"
      and s': "s' = s1\<lparr>resolve := (resolve s1)\<lparr>fired := True\<rparr>\<rparr>"
    by (auto simp: waitForTermination_def WaitAndDrain_def resolve_Do_def
        split: option.splits outcome.splits if_splits)
  note f = termination_body_fields [OF b]
  show "resultErr s' = resultErr s" "fired (resolve s')"
    "runs (resolve s') = Suc (runs (resolve s))" "abortErr s' = Some ErrSandboxTerminated"
    "resultSet s' \<noteq> None" "draining (sessions s')"
    using f by (simp_all add: s')
qed

lemma waitForTermination_returns:
  assumes "count (sessions s) = 0"
  shows "\<exists>s'. waitForTermination ok s = Returns s'"
  using assms
  by (simp add: waitForTermination_def WaitAndDrain_def resolve_Do_def termination_body_def
      Let_def)

lemma Kill_returns:
  assumes "count (sessions s) = int (length (shells s))"
  shows "\<exists>r s'. Kill s = Returns (r, s')"
proof (cases "fired (resolve s)")
  case True
  then show ?thesis by (simp add: Kill_fired)
next
  case False
  let ?s = "emit [EvKillProcessTree (process s)]
              (s\<lparr>resolve := (resolve s)\<lparr>runs := Suc (runs (resolve s))\<rparr>\<rparr>)"
  from assms have "count (sessions ?s) = int (length (shells ?s))" by (simp add: emit_def)
  from abortShells_returns [OF this] obtain s1 where "abortShells ?s = Some s1" ..
  with False show ?thesis
    by (simp add: Kill_def resolve_Do_def resolve_Wait_def kill_body_def Let_def)
qed

lemma Abort_returns:
  assumes "count (sessions s) = int (length (shells s))"
    and "engine_config_CreateUser s \<longrightarrow> ue = None"
  shows "\<exists>r s'. Abort ke ue re s = Returns (r, s')"
proof (cases "fired (resolve s)")
  case True
  then show ?thesis by (simp add: Abort_fired)
next
  case False
  let ?s = "emit [EvKillProcessTree (process s)]
              (s\<lparr>resolve := (resolve s)\<lparr>runs := Suc (runs (resolve s))\<rparr>\<rparr>)"
  from assms(1) have "count (sessions ?s) = int (length (shells ?s))" by (simp add: emit_def)
  from abortShells_returns [OF this] obtain s1 where a: "abortShells ?s = Some s1" ..
  from abortShells_fields(8) [OF a] have "engine_config_CreateUser s1 = engine_config_CreateUser s"
    by (simp add: emit_def)
  with assms(2) obtain s2 where "remove_user ke ue s1 = Returns s2"
    by (auto simp: remove_user_def Let_def)
  with False a show ?thesis
    by (simp add: Abort_def resolve_Do_def resolve_Wait_def abort_body_def)
qed

lemma Abort_panics:
  assumes "\<not> fired (resolve s)" and "count (sessions s) = int (length (shells s))"
    and "engine_config_CreateUser s" and "ue = Some failure"
  shows "Abort ke ue re s = Panics failure"
proof -
  let ?s = "emit [EvKillProcessTree (process s)]
              (s\<lparr>resolve := (resolve s)\<lparr>runs := Suc (runs (resolve s))\<rparr>\<rparr>)"
  from assms(2) have "count (sessions ?s) = int (length (shells ?s))" by (simp add: emit_def)
  from abortShells_returns [OF this] obtain s1 where a: "abortShells ?s = Some s1" ..
  from abortShells_fields(8) [OF a] assms(3) have "engine_config_CreateUser s1"
    by (simp add: emit_def)
  with assms(4) have "remove_user ke ue s1 = Panics failure"
    by (simp add: remove_user_def Let_def)
  with assms(1) a show ?thesis
    by (simp add: Abort_def resolve_Do_def abort_body_def)
qed

lemma NewShell_fields:
  "resolve (snd (NewShell sp s)) = resolve s"
  "resultErr (snd (NewShell sp s)) = resultErr s"
  "abortErr (snd (NewShell sp s)) = abortErr s"
  "resultSet (snd (NewShell sp s)) = resultSet s"
  "effects (snd (NewShell sp s)) = effects s"
  "draining (sessions (snd (NewShell sp s))) = draining (sessions s)"
  by (auto simp: NewShell_def Add_def Done_def split: sum.splits)

lemma shell_finished_fields:
  "resolve (shell_finished S s) = resolve s"
  "resultErr (shell_finished S s) = resultErr s"
  "abortErr (shell_finished S s) = abortErr s"
  "resultSet (shell_finished S s) = resultSet s"
  "effects (shell_finished S s) = effects s"
  "draining (sessions (shell_finished S s)) = draining (sessions s)"
  by (simp_all add: shell_finished_def Done_def)


subsection \<open>Steps and schedules\<close>

lemma step_fired:
  assumes "fired (resolve s)" and "step c s = Some s'"
  shows "resolve s' = resolve s \<and> resultSet s' = resultSet s \<and> resultErr s' = resultErr s
         \<and> abortErr s' = abortErr s \<and> effects s' = effects s"
proof (cases c)
  case CallKill
  with assms show ?thesis by (simp add: Kill_fired)
next
  case (CallAbort ke ue re)
  with assms show ?thesis by (simp add: Abort_fired)
next
  case (ProcessExit ok)
  with assms show ?thesis by (simp add: returned_Some waitForTermination_fired)
next
  case (CallNewShell sp)
  with assms show ?thesis by (auto simp: NewShell_fields)
next
  case (ShellExit S)
  with assms show ?thesis by (auto simp: shell_finished_fields split: if_splits)
qed

lemma run_fired:
  assumes "fired (resolve s)" and "run cs s = Some s'"
  shows "resolve s' = resolve s \<and> resultSet s' = resultSet s \<and> resultErr s' = resultErr s
         \<and> abortErr s' = abortErr s \<and> effects s' = effects s"
  using assms
proof (induction cs arbitrary: s)
  case Nil
  then show ?case by simp
next
  case (Cons c cs)
  from Cons.prems obtain s1 where s1: "step c s = Some s1" and r: "run cs s1 = Some s'"
    by (auto split: option.splits)
  from step_fired [OF Cons.prems(1) s1] have eq: "resolve s1 = resolve s"
    "resultSet s1 = resultSet s" "resultErr s1 = resultErr s" "abortErr s1 = abortErr s"
    "effects s1 = effects s" by simp_all
  with Cons.prems(1) have "fired (resolve s1)" by simp
  from Cons.IH [OF this r] eq show ?case by simp
qed

lemma step_runs:
  assumes "step c s = Some s'"
  shows "(fired (resolve s) \<longrightarrow> resolve s' = resolve s)
       \<and> (\<not> fired (resolve s) \<and> fired (resolve s') \<longrightarrow> runs (resolve s') = Suc (runs (resolve s)))
       \<and> (\<not> fired (resolve s) \<and> \<not> fired (resolve s') \<longrightarrow> resolve s' = resolve s)"
proof (cases c)
  case CallKill
  with assms obtain r where "Kill s = Returns (r, s')" by (auto simp: returned_Some)
  then show ?thesis
    by (cases "fired (resolve s)") (auto simp: Kill_fired dest: Kill_wins)
next
  case (CallAbort ke ue re)
  with assms obtain r where "Abort ke ue re s = Returns (r, s')" by (auto simp: returned_Some)
  then show ?thesis
    by (cases "fired (resolve s)") (auto simp: Abort_fired dest: Abort_wins)
next
  case (ProcessExit ok)
  with assms have "waitForTermination ok s = Returns s'" by (simp add: returned_Some)
  then show ?thesis
    by (cases "fired (resolve s)")
      (auto dest: waitForTermination_fired waitForTermination_wins)
next
  case (CallNewShell sp)
  with assms show ?thesis by (auto simp: NewShell_fields)
next
  case (ShellExit S)
  with assms show ?thesis by (auto simp: shell_finished_fields split: if_splits)
qed

lemma run_runs:
  assumes "run cs s = Some s'"
    and "runs (resolve s) = (if fired (resolve s) then 1 else 0)"
  shows "runs (resolve s') = (if fired (resolve s') then 1 else 0)"
  using assms
proof (induction cs arbitrary: s)
  case Nil
  then show ?case by simp
next
  case (Cons c cs)
  from Cons.prems(1) obtain s1 where s1: "step c s = Some s1" and r: "run cs s1 = Some s'"
    by (auto split: option.splits)
  from step_runs [OF s1] Cons.prems(2)
  have "runs (resolve s1) = (if fired (resolve s1) then 1 else 0)"
    by (cases "fired (resolve s)"; cases "fired (resolve s1)") auto
  from Cons.IH [OF r this] show ?case .
qed

lemma step_resultErr:
  assumes "\<not> fired (resolve s)" and "step c s = Some s'"
  shows "(fired (resolve s') \<longrightarrow>
            resultErr s' = (if is_abort (Some c) then Some ErrSandboxAborted else resultErr s))
       \<and> (\<not> fired (resolve s') \<longrightarrow> resultErr s' = resultErr s)"
proof (cases c)
  case CallKill
  with assms obtain r where "Kill s = Returns (r, s')" by (auto simp: returned_Some)
  from Kill_wins [OF assms(1) this] CallKill show ?thesis by simp
next
  case (CallAbort ke ue re)
  with assms obtain r where "Abort ke ue re s = Returns (r, s')" by (auto simp: returned_Some)
  from Abort_wins [OF assms(1) this] CallAbort show ?thesis by simp
next
  case (ProcessExit ok)
  with assms have "waitForTermination ok s = Returns s'" by (simp add: returned_Some)
  from waitForTermination_wins [OF assms(1) this] ProcessExit show ?thesis by simp
next
  case (CallNewShell sp)
  with assms show ?thesis by (auto simp: NewShell_fields)
next
  case (ShellExit S)
  with assms show ?thesis by (auto simp: shell_finished_fields split: if_splits)
qed

text \<open>
  The three result fields of a sandbox on which no body has run, and the two shapes they
  can have once a body has run: the one left by \<open>Abort\<close>, the one left by \<open>Kill\<close> or by
  the watcher.
\<close>

lemma step_result_fields:
  assumes "\<not> fired (resolve s)" and "step c s = Some s'"
    and "resultSet s = None" and "resultErr s = None" and "abortErr s = None"
  shows "(\<not> fired (resolve s') \<longrightarrow>
            resultSet s' = None \<and> resultErr s' = None \<and> abortErr s' = None
            \<and> effects s' = effects s)
       \<and> (fired (resolve s') \<longrightarrow>
            (resultErr s' = Some ErrSandboxAborted \<and> resultSet s' = None \<and> abortErr s' = None)
          \<or> (resultErr s' = None \<and> resultSet s' \<noteq> None
              \<and> abortErr s' = Some ErrSandboxTerminated))"
proof (cases c)
  case CallKill
  with assms obtain r where "Kill s = Returns (r, s')" by (auto simp: returned_Some)
  from Kill_wins [OF assms(1) this] assms(4) show ?thesis by simp
next
  case (CallAbort ke ue re)
  with assms obtain r where "Abort ke ue re s = Returns (r, s')" by (auto simp: returned_Some)
  from Abort_wins [OF assms(1) this] assms(3,5) show ?thesis by simp
next
  case (ProcessExit ok)
  with assms have "waitForTermination ok s = Returns s'" by (simp add: returned_Some)
  from waitForTermination_wins [OF assms(1) this] assms(4) show ?thesis by simp
next
  case (CallNewShell sp)
  with assms show ?thesis by (auto simp: NewShell_fields)
next
  case (ShellExit S)
  with assms show ?thesis by (auto simp: shell_finished_fields split: if_splits)
qed

lemma run_result_fields:
  assumes "run cs s0 = Some s" and "\<not> fired (resolve s0)"
    and "resultSet s0 = None" and "resultErr s0 = None" and "abortErr s0 = None"
  shows "(\<not> fired (resolve s) \<longrightarrow>
            resultSet s = None \<and> resultErr s = None \<and> abortErr s = None
            \<and> effects s = effects s0)
       \<and> (fired (resolve s) \<longrightarrow>
            (resultErr s = Some ErrSandboxAborted \<and> resultSet s = None \<and> abortErr s = None)
          \<or> (resultErr s = None \<and> resultSet s \<noteq> None
              \<and> abortErr s = Some ErrSandboxTerminated))"
  using assms
proof (induction cs arbitrary: s0)
  case Nil
  then show ?case by simp
next
  case (Cons c cs)
  from Cons.prems(1) obtain s1 where s1: "step c s0 = Some s1" and r: "run cs s1 = Some s"
    by (auto split: option.splits)
  note st = step_result_fields [OF Cons.prems(2) s1 Cons.prems(3,4,5)]
  show ?case
  proof (cases "fired (resolve s1)")
    case True
    from run_fired [OF True r] True st show ?thesis by simp
  next
    case False
    with st have "resultSet s1 = None" "resultErr s1 = None" "abortErr s1 = None"
      and e: "effects s1 = effects s0" by simp_all
    from Cons.IH [OF r False this(1,2,3)] e show ?thesis by simp
  qed
qed

lemma Kill_after_schedule:
  assumes "\<not> fired (resolve s0)" and "resultErr s0 = None"
    and "run cs s0 = Some s" and "Kill s = Returns (r, s')"
  shows "r = (if is_abort (winner (cs @ [CallKill]) s0) then Some ErrSandboxAborted else None)"
  using assms
proof (induction cs arbitrary: s0)
  case Nil
  then have k: "Kill s0 = Returns (r, s')" by simp
  from Kill_wins [OF Nil.prems(1) k] Nil.prems(2) have "r = None" "fired (resolve s')"
    by simp_all
  with k Nil.prems(1) show ?case by simp
next
  case (Cons c cs)
  from Cons.prems(3) obtain s1 where s1: "step c s0 = Some s1" and r: "run cs s1 = Some s"
    by (auto split: option.splits)
  note st = step_resultErr [OF Cons.prems(1) s1]
  show ?case
  proof (cases "fired (resolve s1)")
    case True
    from run_fired [OF True r] have eq: "resolve s = resolve s1" "resultErr s = resultErr s1"
      by simp_all
    with True have "fired (resolve s)" by simp
    from Kill_fired [OF this] Cons.prems(4) have "r = resultErr s" by simp
    with eq st True Cons.prems(2)
    have "r = (if is_abort (Some c) then Some ErrSandboxAborted else None)" by simp
    moreover from s1 True Cons.prems(1) have "winner ((c # cs) @ [CallKill]) s0 = Some c"
      by simp
    ultimately show ?thesis by simp
  next
    case False
    with st Cons.prems(2) have "resultErr s1 = None" by simp
    from Cons.IH [OF False this r Cons.prems(4)]
    have "r = (if is_abort (winner (cs @ [CallKill]) s1) then Some ErrSandboxAborted else None)" .
    moreover from s1 False have "winner ((c # cs) @ [CallKill]) s0 = winner (cs @ [CallKill]) s1"
      by simp
    ultimately show ?thesis by simp
  qed
qed

lemma Kill_stores:
  assumes "Kill s = Returns (r, s')"
  shows "fired (resolve s') \<and> r = resultErr s'"
proof (cases "fired (resolve s)")
  case True
  with assms show ?thesis by (auto simp: Kill_fired)
next
  case False
  from Kill_wins [OF False assms] show ?thesis by simp
qed

lemma Kill_draining:
  assumes "Kill s = Returns (r, s')" and "fired (resolve s) \<longrightarrow> draining (sessions s)"
  shows "draining (sessions s')"
proof (cases "fired (resolve s)")
  case True
  with assms show ?thesis by (auto simp: Kill_fired)
next
  case False
  from Kill_wins(7) [OF False assms(1)] show ?thesis .
qed

lemma Abort_draining:
  assumes "Abort ke ue re s = Returns (r, s')" and "fired (resolve s) \<longrightarrow> draining (sessions s)"
  shows "draining (sessions s')"
proof (cases "fired (resolve s)")
  case True
  with assms show ?thesis by (auto simp: Abort_fired)
next
  case False
  from Abort_wins(7) [OF False assms(1)] show ?thesis .
qed

lemma waitForTermination_draining:
  assumes "waitForTermination ok s = Returns s'"
  shows "draining (sessions s')"
proof (cases "fired (resolve s)")
  case True
  from waitForTermination_fired(6) [OF True assms] show ?thesis .
next
  case False
  from waitForTermination_wins(6) [OF False assms] show ?thesis .
qed

lemma step_draining:
  assumes "step c s = Some s'" and "fired (resolve s) \<longrightarrow> draining (sessions s)"
  shows "fired (resolve s') \<longrightarrow> draining (sessions s')"
proof (cases c)
  case CallKill
  with assms obtain r where "Kill s = Returns (r, s')" by (auto simp: returned_Some)
  from Kill_draining [OF this assms(2)] show ?thesis by simp
next
  case (CallAbort ke ue re)
  with assms obtain r where "Abort ke ue re s = Returns (r, s')" by (auto simp: returned_Some)
  from Abort_draining [OF this assms(2)] show ?thesis by simp
next
  case (ProcessExit ok)
  with assms have "waitForTermination ok s = Returns s'" by (simp add: returned_Some)
  from waitForTermination_draining [OF this] show ?thesis by simp
next
  case (CallNewShell sp)
  with assms show ?thesis by (auto simp: NewShell_fields)
next
  case (ShellExit S)
  with assms show ?thesis by (auto simp: shell_finished_fields split: if_splits)
qed

lemma run_draining:
  assumes "run cs s = Some s'" and "fired (resolve s) \<longrightarrow> draining (sessions s)"
  shows "fired (resolve s') \<longrightarrow> draining (sessions s')"
  using assms
proof (induction cs arbitrary: s)
  case Nil
  then show ?case by simp
next
  case (Cons c cs)
  from Cons.prems(1) obtain s1 where s1: "step c s = Some s1" and r: "run cs s1 = Some s'"
    by (auto split: option.splits)
  from Cons.IH [OF r step_draining [OF s1 Cons.prems(2)]] show ?case .
qed

lemma run_append:
  "run (cs @ cs') s = (case run cs s of None \<Rightarrow> None | Some s' \<Rightarrow> run cs' s')"
  by (induction cs arbitrary: s) (auto split: option.splits)

subsection \<open>Claims about the sandbox\<close>

text \<open>
  C1.  Take a sandbox on which nothing has resolved yet (gate untouched, the three result
  fields nil) and any schedule of \<open>Kill\<close>, \<open>Abort\<close>, the natural-completion watcher, and
  shells coming and going.  The gate starts at most one body.  As long as it has not
  fired, no body has run, no teardown call has been made, and \<open>WaitForResult\<close> keeps its
  caller waiting.  Once it has fired, exactly one body has run, and the result fields show
  which: either the ones \<open>Abort\<close> leaves or the ones \<open>Kill\<close> and the watcher leave, never
  a mixture; from then on, whatever is scheduled afterwards, no further teardown call is
  made, every \<open>WaitForResult\<close> returns the one stored pair of result set and error, and
  every \<open>Kill\<close> returns that same stored error and leaves the sandbox as it found it.
  Every \<open>Kill\<close> that returns, the winning one included, returns the error that
  \<open>WaitForResult\<close> hands to every caller from then on.  An \<open>Abort\<close> can only panic as
  the one caller that got through the gate.
\<close>

theorem resolution_runs_once:
  assumes "resolve s0 = Once_zero" and "resultSet s0 = None" and "resultErr s0 = None"
    and "abortErr s0 = None" and "run cs s0 = Some s"
  shows "runs (resolve s) \<le> 1
       \<and> (\<not> fired (resolve s) \<longrightarrow>
            runs (resolve s) = 0 \<and> effects s = effects s0 \<and> WaitForResult s = None)
       \<and> (fired (resolve s) \<longrightarrow>
            runs (resolve s) = 1
          \<and> ((resultErr s = Some ErrSandboxAborted \<and> resultSet s = None \<and> abortErr s = None)
             \<or> (resultErr s = None \<and> resultSet s \<noteq> None
                 \<and> abortErr s = Some ErrSandboxTerminated))
          \<and> (\<forall>cs' s'. run cs' s = Some s' \<longrightarrow>
                runs (resolve s') = 1 \<and> effects s' = effects s
              \<and> WaitForResult s' = Some (resultSet s, resultErr s)
              \<and> Kill s' = Returns (resultErr s, s')))
       \<and> (\<forall>r s1. Kill s = Returns (r, s1) \<longrightarrow>
            runs (resolve s1) = 1 \<and> WaitForResult s1 = Some (resultSet s1, r)
          \<and> (\<forall>cs' s'. run cs' s1 = Some s' \<longrightarrow>
                WaitForResult s' = Some (resultSet s1, r) \<and> Kill s' = Returns (r, s')))
       \<and> (\<forall>ke ue re failure. Abort ke ue re s = Panics failure \<longrightarrow> \<not> fired (resolve s))"
proof -
  from assms(1) have nf: "\<not> fired (resolve s0)"
    and init: "runs (resolve s0) = (if fired (resolve s0) then 1 else 0)"
    by (simp_all add: Once_zero_def)
  have reach: "runs (resolve t) = (if fired (resolve t) then 1 else 0)"
    if "run ds s0 = Some t" for ds t
    using run_runs [OF that init] .
  have later: "runs (resolve t') = 1 \<and> effects t' = effects t
               \<and> WaitForResult t' = Some (resultSet t, resultErr t)
               \<and> Kill t' = Returns (resultErr t, t')"
    if r0: "run ds s0 = Some t" and f: "fired (resolve t)" and r: "run cs' t = Some t'"
    for ds t cs' t'
  proof -
    from run_fired [OF f r] have eq: "resolve t' = resolve t" "resultSet t' = resultSet t"
      "resultErr t' = resultErr t" "effects t' = effects t" by simp_all
    with f have f': "fired (resolve t')" by simp
    from reach [OF r0] f eq have "runs (resolve t') = 1" by simp
    moreover from WaitForResult_fired [OF f'] eq
    have "WaitForResult t' = Some (resultSet t, resultErr t)" by simp
    moreover from Kill_fired [OF f'] eq have "Kill t' = Returns (resultErr t, t')" by simp
    ultimately show ?thesis using eq by simp
  qed
  note inv = reach [OF assms(5)]
  note fields = run_result_fields [OF assms(5) nf assms(2,3,4)]
  have a: "runs (resolve s) \<le> 1" using inv by simp
  have b: "runs (resolve s) = 0 \<and> effects s = effects s0 \<and> WaitForResult s = None"
    if "\<not> fired (resolve s)"
    using that inv fields by (simp add: WaitForResult_waits)
  have c: "runs (resolve s) = 1
          \<and> ((resultErr s = Some ErrSandboxAborted \<and> resultSet s = None \<and> abortErr s = None)
             \<or> (resultErr s = None \<and> resultSet s \<noteq> None
                 \<and> abortErr s = Some ErrSandboxTerminated))
          \<and> (\<forall>cs' s'. run cs' s = Some s' \<longrightarrow>
                runs (resolve s') = 1 \<and> effects s' = effects s
              \<and> WaitForResult s' = Some (resultSet s, resultErr s)
              \<and> Kill s' = Returns (resultErr s, s'))"
    if f: "fired (resolve s)"
    using f inv fields later [OF assms(5) f] by simp
  have d: "runs (resolve s1) = 1 \<and> WaitForResult s1 = Some (resultSet s1, r)
          \<and> (\<forall>cs' s'. run cs' s1 = Some s' \<longrightarrow>
                WaitForResult s' = Some (resultSet s1, r) \<and> Kill s' = Returns (r, s'))"
    if k: "Kill s = Returns (r, s1)" for r s1
  proof -
    from k assms(5) have r1: "run (cs @ [CallKill]) s0 = Some s1"
      by (simp add: run_append)
    from Kill_stores [OF k] have f1: "fired (resolve s1)" and r: "r = resultErr s1"
      by simp_all
    from reach [OF r1] f1 have "runs (resolve s1) = 1" by simp
    moreover from WaitForResult_fired [OF f1] r
    have "WaitForResult s1 = Some (resultSet s1, r)" by simp
    moreover have "WaitForResult s' = Some (resultSet s1, r) \<and> Kill s' = Returns (r, s')"
      if "run cs' s1 = Some s'" for cs' s'
      using later [OF r1 f1 that] r by simp
    ultimately show ?thesis by blast
  qed
  have e: "\<not> fired (resolve s)" if "Abort ke ue re s = Panics failure" for ke ue re failure
    using that Abort_fired [of s ke ue re] by auto
  from a b c d e show ?thesis by blast
qed

text \<open>
  On a fresh sandbox: with only a shell attached nothing is resolved and \<open>WaitForResult\<close>
  waits; \<open>Kill\<close> then wins the gate, returns nil, and every later caller gets the same
  stored outcome; an \<open>Abort\<close> whose user removal fails panics while the gate is open.
\<close>

theorem resolution_runs_once_witness:
  "resolve fresh_sandbox = Once_zero \<and> resultSet fresh_sandbox = None
   \<and> resultErr fresh_sandbox = None \<and> abortErr fresh_sandbox = None
   \<and> (\<exists>s. run [CallNewShell (Inr 1)] fresh_sandbox = Some s \<and> \<not> fired (resolve s)
          \<and> runs (resolve s) = 0 \<and> effects s = effects fresh_sandbox
          \<and> WaitForResult s = None
          \<and> (\<exists>s1. Kill s = Returns (None, s1) \<and> WaitForResult s1 = Some (resultSet s1, None)
                 \<and> (\<exists>s'. run [CallAbort None None None, ProcessExit True] s1 = Some s'
                        \<and> WaitForResult s' = Some (resultSet s1, None)
                        \<and> Kill s' = Returns (None, s'))))
   \<and> (\<exists>s. run [CallNewShell (Inr 1), CallKill, CallAbort None None None, ProcessExit True]
             fresh_sandbox = Some s
          \<and> fired (resolve s) \<and> runs (resolve s) = 1
          \<and> resultErr s = None \<and> resultSet s \<noteq> None
          \<and> WaitForResult s = Some (resultSet s, resultErr s)
          \<and> Kill s = Returns (resultErr s, s))
   \<and> Abort None (Some (OSError ''user is logged in'')) None fresh_sandbox
     = Panics (OSError ''user is logged in'')
   \<and> \<not> fired (resolve fresh_sandbox)"
proof -
  let ?c1 = "[CallNewShell (Inr 1)]"
  let ?c2 = "[CallAbort None None None, ProcessExit True]"
  let ?c3 = "[CallNewShell (Inr 1), CallKill, CallAbort None None None, ProcessExit True]"
  have h: "resolve fresh_sandbox = Once_zero" "resultSet fresh_sandbox = None"
    "resultErr fresh_sandbox = None" "abortErr fresh_sandbox = None"
    by (simp_all add: fresh_sandbox_def)
  have "run ?c1 fresh_sandbox \<noteq> None
        \<and> \<not> fired (resolve (the (run ?c1 fresh_sandbox)))
        \<and> returned (Kill (the (run ?c1 fresh_sandbox))) \<noteq> None
        \<and> fst (the (returned (Kill (the (run ?c1 fresh_sandbox))))) = None
        \<and> run ?c2 (snd (the (returned (Kill (the (run ?c1 fresh_sandbox)))))) \<noteq> None"
    by code_simp
  then obtain s s1 s' where r1: "run ?c1 fresh_sandbox = Some s" and nf: "\<not> fired (resolve s)"
    and k: "Kill s = Returns (None, s1)" and r2: "run ?c2 s1 = Some s'"
    by (cases "Kill (the (run ?c1 fresh_sandbox))") auto
  note t1 = resolution_runs_once [OF h r1]
  from t1 nf have u: "runs (resolve s) = 0 \<and> effects s = effects fresh_sandbox
                      \<and> WaitForResult s = None"
    by blast
  from t1 k r2 have v: "WaitForResult s1 = Some (resultSet s1, None)
                        \<and> WaitForResult s' = Some (resultSet s1, None)
                        \<and> Kill s' = Returns (None, s')"
    by blast
  have "run ?c3 fresh_sandbox \<noteq> None \<and> fired (resolve (the (run ?c3 fresh_sandbox)))
        \<and> resultErr (the (run ?c3 fresh_sandbox)) = None"
    by code_simp
  then obtain t where r3: "run ?c3 fresh_sandbox = Some t" and f: "fired (resolve t)"
    and e: "resultErr t = None"
    by auto
  note t3 = resolution_runs_once [OF h r3]
  have e0: "run [] t = Some t" by simp
  from t3 f have w1: "runs (resolve t) = 1"
    and w2: "(resultErr t = Some ErrSandboxAborted \<and> resultSet t = None \<and> abortErr t = None)
             \<or> (resultErr t = None \<and> resultSet t \<noteq> None
                 \<and> abortErr t = Some ErrSandboxTerminated)"
    and w3: "\<forall>cs' s'. run cs' t = Some s' \<longrightarrow>
                runs (resolve s') = 1 \<and> effects s' = effects t
              \<and> WaitForResult s' = Some (resultSet t, resultErr t)
              \<and> Kill s' = Returns (resultErr t, s')"
    by blast+
  from w2 e have w4: "resultSet t \<noteq> None" by auto
  from w3 e0 have w5: "WaitForResult t = Some (resultSet t, resultErr t)
                       \<and> Kill t = Returns (resultErr t, t)"
    by blast
  from w1 w4 w5
  have w: "runs (resolve t) = 1 \<and> resultSet t \<noteq> None
           \<and> WaitForResult t = Some (resultSet t, resultErr t)
           \<and> Kill t = Returns (resultErr t, t)"
    by blast
  have p: "Abort None (Some (OSError ''user is logged in'')) None fresh_sandbox
           = Panics (OSError ''user is logged in'')"
    by code_simp
  have r0: "run [] fresh_sandbox = Some fresh_sandbox" by simp
  from resolution_runs_once [OF h r0] p have q: "\<not> fired (resolve fresh_sandbox)"
    by blast
  from h r1 nf u k v r2 r3 f e w p q show ?thesis by blast
qed

text \<open>
  C8.  Take any schedule from a sandbox whose gate has not fired and whose \<open>resultErr\<close> is
  still nil, and call \<open>Kill\<close> at its end.  \<open>Kill\<close> returns nil whenever the gate was won
  by a \<open>Kill\<close> (an earlier one or this one) or by the watcher; it returns a non-nil error,
  and then it is the aborted error, exactly when the gate was won by an \<open>Abort\<close>.  The call
  does return when the gate has fired or when every counted session is an attached shell.
\<close>

theorem Kill_error_follows_winner:
  assumes "\<not> fired (resolve s0)" and "resultErr s0 = None" and "run cs s0 = Some s"
  shows "(\<forall>r s'. Kill s = Returns (r, s') \<longrightarrow>
            r = (if is_abort (winner (cs @ [CallKill]) s0)
                 then Some ErrSandboxAborted else None))
       \<and> (fired (resolve s) \<or> count (sessions s) = int (length (shells s)) \<longrightarrow>
            (\<exists>r s'. Kill s = Returns (r, s')))"
proof -
  have "\<exists>r s'. Kill s = Returns (r, s')" if "fired (resolve s)"
    using that by (simp add: Kill_fired)
  moreover have "\<exists>r s'. Kill s = Returns (r, s')"
    if "count (sessions s) = int (length (shells s))"
    using that by (rule Kill_returns)
  ultimately show ?thesis
    using Kill_after_schedule [OF assms] by blast
qed

text \<open>
  \<open>Abort\<close> wins, the watcher comes second: a later \<open>Kill\<close> returns the aborted error.
  \<open>Kill\<close> alone on a fresh sandbox wins the gate itself and returns nil.
\<close>

theorem Kill_error_follows_winner_witness:
  "\<not> fired (resolve fresh_sandbox) \<and> resultErr fresh_sandbox = None
   \<and> (\<exists>s s'. run [CallAbort None None None, ProcessExit False] fresh_sandbox = Some s
            \<and> fired (resolve s) \<and> Kill s = Returns (Some ErrSandboxAborted, s'))
   \<and> (\<exists>s'. run [] fresh_sandbox = Some fresh_sandbox
          \<and> count (sessions fresh_sandbox) = int (length (shells fresh_sandbox))
          \<and> Kill fresh_sandbox = Returns (None, s'))"
proof -
  let ?cs = "[CallAbort None None None, ProcessExit False]"
  have a: "\<not> fired (resolve fresh_sandbox)" and b: "resultErr fresh_sandbox = None"
    by (simp_all add: fresh_sandbox_def Once_zero_def)
  have "run ?cs fresh_sandbox \<noteq> None \<and> fired (resolve (the (run ?cs fresh_sandbox)))"
    by code_simp
  then obtain s where r: "run ?cs fresh_sandbox = Some s" and f: "fired (resolve s)"
    by auto
  have w: "is_abort (winner (?cs @ [CallKill]) fresh_sandbox)"
    by code_simp
  from Kill_error_follows_winner [OF a b r] f w
  have first: "\<exists>s'. Kill s = Returns (Some ErrSandboxAborted, s')"
    by auto
  have r0: "run [] fresh_sandbox = Some fresh_sandbox" by simp
  have c: "count (sessions fresh_sandbox) = int (length (shells fresh_sandbox))"
    by (simp add: fresh_sandbox_def WaitGroup_zero_def)
  have w0: "\<not> is_abort (winner ([] @ [CallKill]) fresh_sandbox)"
    by code_simp
  from Kill_error_follows_winner [OF a b r0] c w0
  have second: "\<exists>s'. Kill fresh_sandbox = Returns (None, s')"
    by auto
  from a b r f first r0 c second show ?thesis by blast
qed

text \<open>
  C4, as the code has it.  Take a sandbox on which nothing has resolved yet and whose
  counted sessions are its attached shells.  When \<open>Abort\<close> wins the gate and the removal
  of an owned user succeeds, \<open>Abort\<close> itself returns nil; the aborted error goes into
  \<open>resultErr\<close>, so \<open>WaitForResult\<close> returns no result set together with the aborted
  error, and every later \<open>Kill\<close> returns the aborted error.  When the removal of the
  owned user fails, \<open>Abort\<close> panics instead of returning.  When \<open>Kill\<close> or the watcher
  wins the gate, the winning \<open>Kill\<close> returns nil, \<open>WaitForResult\<close> returns a result set
  with a nil error, and an \<open>Abort\<close> that comes afterwards returns the terminated error,
  which is not the aborted error.
\<close>

theorem Abort_winning_outcome:
  assumes "\<not> fired (resolve s)" and "resultSet s = None" and "resultErr s = None"
    and "abortErr s = None" and "count (sessions s) = int (length (shells s))"
  shows "((engine_config_CreateUser s \<longrightarrow> ue = None) \<longrightarrow>
            (\<exists>s'. Abort ke ue re s = Returns (None, s')
                 \<and> WaitForResult s' = Some (None, Some ErrSandboxAborted)
                 \<and> Kill s' = Returns (Some ErrSandboxAborted, s')))
       \<and> (\<forall>failure. engine_config_CreateUser s \<and> ue = Some failure \<longrightarrow>
            Abort ke ue re s = Panics failure)
       \<and> (\<exists>s1. Kill s = Returns (None, s1) \<and> resultSet s1 \<noteq> None
               \<and> WaitForResult s1 = Some (resultSet s1, None)
               \<and> Abort ke ue re s1 = Returns (Some ErrSandboxTerminated, s1))
       \<and> (shells s = [] \<longrightarrow>
            (\<exists>s1. waitForTermination ok s = Returns s1 \<and> resultSet s1 \<noteq> None
                 \<and> WaitForResult s1 = Some (resultSet s1, None)
                 \<and> Abort ke ue re s1 = Returns (Some ErrSandboxTerminated, s1)))
       \<and> ErrSandboxAborted \<noteq> ErrSandboxTerminated"
proof -
  have a: "\<exists>s'. Abort ke ue re s = Returns (None, s')
                 \<and> WaitForResult s' = Some (None, Some ErrSandboxAborted)
                 \<and> Kill s' = Returns (Some ErrSandboxAborted, s')"
    if u: "engine_config_CreateUser s \<longrightarrow> ue = None"
  proof -
    from Abort_returns [OF assms(5) u] obtain r s' where ab: "Abort ke ue re s = Returns (r, s')"
      by blast
    note w = Abort_wins [OF assms(1) ab]
    from w assms(4) have "r = None" by simp
    moreover from w assms(2) have "WaitForResult s' = Some (None, Some ErrSandboxAborted)"
      by (simp add: WaitForResult_fired)
    moreover from w have "Kill s' = Returns (Some ErrSandboxAborted, s')"
      by (simp add: Kill_fired)
    ultimately show ?thesis using ab by blast
  qed
  have b: "Abort ke ue re s = Panics failure"
    if "engine_config_CreateUser s \<and> ue = Some failure" for failure
    using Abort_panics [OF assms(1,5)] that by blast
  have c: "\<exists>s1. Kill s = Returns (None, s1) \<and> resultSet s1 \<noteq> None
               \<and> WaitForResult s1 = Some (resultSet s1, None)
               \<and> Abort ke ue re s1 = Returns (Some ErrSandboxTerminated, s1)"
  proof -
    from Kill_returns [OF assms(5)] obtain r s1 where k: "Kill s = Returns (r, s1)"
      by blast
    note w = Kill_wins [OF assms(1) k]
    from w assms(3) have "r = None" by simp
    moreover from w assms(3) have "WaitForResult s1 = Some (resultSet s1, None)"
      by (simp add: WaitForResult_fired)
    moreover from w have "Abort ke ue re s1 = Returns (Some ErrSandboxTerminated, s1)"
      by (simp add: Abort_fired)
    ultimately show ?thesis using k w(6) by blast
  qed
  have d: "\<exists>s1. waitForTermination ok s = Returns s1 \<and> resultSet s1 \<noteq> None
                 \<and> WaitForResult s1 = Some (resultSet s1, None)
                 \<and> Abort ke ue re s1 = Returns (Some ErrSandboxTerminated, s1)"
    if "shells s = []"
  proof -
    from that assms(5) have "count (sessions s) = 0" by simp
    from waitForTermination_returns [OF this]
    obtain s1 where t: "waitForTermination ok s = Returns s1" by blast
    note w = waitForTermination_wins [OF assms(1) t]
    from w assms(3) have "WaitForResult s1 = Some (resultSet s1, None)"
      by (simp add: WaitForResult_fired)
    moreover from w have "Abort ke ue re s1 = Returns (Some ErrSandboxTerminated, s1)"
      by (simp add: Abort_fired)
    ultimately show ?thesis using t w(5) by blast
  qed
  have e: "ErrSandboxAborted \<noteq> ErrSandboxTerminated" by simp
  from a b c d e show ?thesis by blast
qed

text \<open>
  The fresh sandbox owns a user.  With a removal that succeeds \<open>Abort\<close> returns nil and
  the aborted error is stored; with a removal that fails it panics; after \<open>Kill\<close> or the
  watcher it returns the terminated error.
\<close>

theorem Abort_winning_outcome_witness:
  "\<not> fired (resolve fresh_sandbox) \<and> resultSet fresh_sandbox = None
   \<and> resultErr fresh_sandbox = None \<and> abortErr fresh_sandbox = None
   \<and> count (sessions fresh_sandbox) = int (length (shells fresh_sandbox))
   \<and> engine_config_CreateUser fresh_sandbox \<and> shells fresh_sandbox = []
   \<and> (\<exists>s'. Abort None None None fresh_sandbox = Returns (None, s')
          \<and> WaitForResult s' = Some (None, Some ErrSandboxAborted)
          \<and> Kill s' = Returns (Some ErrSandboxAborted, s'))
   \<and> Abort None (Some (OSError ''user is logged in'')) None fresh_sandbox
     = Panics (OSError ''user is logged in'')
   \<and> (\<exists>s1. Kill fresh_sandbox = Returns (None, s1) \<and> resultSet s1 \<noteq> None
          \<and> WaitForResult s1 = Some (resultSet s1, None)
          \<and> Abort None None None s1 = Returns (Some ErrSandboxTerminated, s1))
   \<and> (\<exists>s1. waitForTermination True fresh_sandbox = Returns s1 \<and> resultSet s1 \<noteq> None
          \<and> WaitForResult s1 = Some (resultSet s1, None)
          \<and> Abort None None None s1 = Returns (Some ErrSandboxTerminated, s1))"
proof -
  have h: "\<not> fired (resolve fresh_sandbox)" "resultSet fresh_sandbox = None"
    "resultErr fresh_sandbox = None" "abortErr fresh_sandbox = None"
    "count (sessions fresh_sandbox) = int (length (shells fresh_sandbox))"
    and cu: "engine_config_CreateUser fresh_sandbox" and sh: "shells fresh_sandbox = []"
    by (simp_all add: fresh_sandbox_def Once_zero_def WaitGroup_zero_def)
  note ok = Abort_winning_outcome [OF h, of None None None True]
  note bad = Abort_winning_outcome [OF h, of "Some (OSError ''user is logged in'')" None None True]
  from ok have "\<exists>s'. Abort None None None fresh_sandbox = Returns (None, s')
          \<and> WaitForResult s' = Some (None, Some ErrSandboxAborted)
          \<and> Kill s' = Returns (Some ErrSandboxAborted, s')"
    by blast
  moreover from bad cu
  have "Abort None (Some (OSError ''user is logged in'')) None fresh_sandbox
        = Panics (OSError ''user is logged in'')"
    by blast
  moreover from ok
  have "\<exists>s1. Kill fresh_sandbox = Returns (None, s1) \<and> resultSet s1 \<noteq> None
          \<and> WaitForResult s1 = Some (resultSet s1, None)
          \<and> Abort None None None s1 = Returns (Some ErrSandboxTerminated, s1)"
    by blast
  moreover from ok sh
  have "\<exists>s1. waitForTermination True fresh_sandbox = Returns s1 \<and> resultSet s1 \<noteq> None
          \<and> WaitForResult s1 = Some (resultSet s1, None)
          \<and> Abort None None None s1 = Returns (Some ErrSandboxTerminated, s1)"
    by blast
  ultimately show ?thesis using h cu sh by blast
qed

text \<open>
  On a fresh sandbox \<open>Abort\<close> wins the gate and returns nil, not the aborted error.
\<close>

theorem Abort_returns_nil_counterexample:
  "map_option fst (returned (Abort None None None fresh_sandbox)) = Some None
   \<and> map_option fst (returned (Abort None None None fresh_sandbox))
     \<noteq> Some (Some ErrSandboxAborted)"
  by code_simp

text \<open>
  C5.  Once the session registry is draining, and so in particular once the sandbox has
  been resolved along any schedule, \<open>NewShell\<close> fails with the sandbox-terminated error
  and leaves the sandbox, its session count included, as it was.  When the registry is
  not draining and the spawn fails, \<open>NewShell\<close> reports a malformed payload and the
  sandbox is again exactly as before: the increment has been taken back by \<open>Done\<close>, so
  the count that a later drain waits for is unchanged.
\<close>

theorem NewShell_rejects_and_rolls_back:
  "(draining (sessions s) \<longrightarrow> NewShell spawned s = (Inl ErrSandboxTerminated, s))
   \<and> (\<forall>s0 cs. \<not> fired (resolve s0) \<and> run cs s0 = Some s \<and> fired (resolve s) \<longrightarrow>
          NewShell spawned s = (Inl ErrSandboxTerminated, s))
   \<and> (\<not> draining (sessions s) \<longrightarrow>
          NewShell (Inl err) s
          = (Inl (MalformedPayloadError ''Unable to spawn command: '' (Some err)), s))"
proof -
  have a: "NewShell spawned s = (Inl ErrSandboxTerminated, s)" if "draining (sessions s)"
    using that by (simp add: NewShell_def Add_def)
  have b: "NewShell spawned s = (Inl ErrSandboxTerminated, s)"
    if "\<not> fired (resolve s0)" "run cs s0 = Some s" "fired (resolve s)" for s0 cs
    using run_draining [OF that(2)] that(1,3) a by simp
  have c: "NewShell (Inl err) s
          = (Inl (MalformedPayloadError ''Unable to spawn command: '' (Some err)), s)"
    if "\<not> draining (sessions s)"
    using that by (simp add: NewShell_def Add_def Done_def)
  from a b c show ?thesis by blast
qed

text \<open>
  After \<open>Kill\<close> a new shell is refused; on a fresh sandbox a failed spawn leaves no trace.
\<close>

theorem NewShell_rejects_and_rolls_back_witness:
  "(\<exists>s. run [CallNewShell (Inr 1), CallKill] fresh_sandbox = Some s
        \<and> \<not> fired (resolve fresh_sandbox) \<and> fired (resolve s) \<and> draining (sessions s)
        \<and> NewShell (Inr 2) s = (Inl ErrSandboxTerminated, s))
   \<and> \<not> draining (sessions fresh_sandbox)
   \<and> NewShell (Inl (OSError ''exec format error'')) fresh_sandbox
     = (Inl (MalformedPayloadError ''Unable to spawn command: ''
               (Some (OSError ''exec format error''))), fresh_sandbox)"
proof -
  let ?cs = "[CallNewShell (Inr 1), CallKill]"
  have a: "\<not> fired (resolve fresh_sandbox)" and n: "\<not> draining (sessions fresh_sandbox)"
    by (simp_all add: fresh_sandbox_def Once_zero_def WaitGroup_zero_def)
  have "run ?cs fresh_sandbox \<noteq> None \<and> fired (resolve (the (run ?cs fresh_sandbox)))
        \<and> draining (sessions (the (run ?cs fresh_sandbox)))"
    by code_simp
  then obtain s where r: "run ?cs fresh_sandbox = Some s" and f: "fired (resolve s)"
    and d: "draining (sessions s)"
    by auto
  from NewShell_rejects_and_rolls_back [of s "Inr 2"] d
  have "NewShell (Inr 2) s = (Inl ErrSandboxTerminated, s)" by blast
  moreover from NewShell_rejects_and_rolls_back [of fresh_sandbox _ "OSError ''exec format error''"] n
  have "NewShell (Inl (OSError ''exec format error'')) fresh_sandbox
     = (Inl (MalformedPayloadError ''Unable to spawn command: ''
               (Some (OSError ''exec format error''))), fresh_sandbox)"
    by blast
  ultimately show ?thesis using a n r f d by blast
qed

section \<open>Construction of a sandbox\<close>

text \<open>
  C7, as the code has it.  Let the engine create users, and let the folder and the user be
  allocated.  A downloaded context file whose extension is neither \<open>.zip\<close> nor \<open>.gz\<close> is
  not unpacked and \<open>fetchContext\<close> reports no error for it; construction then goes on to
  start the process and, when that starts, returns the sandbox without removing anything.
  Whenever \<open>fetchContext\<close> does report an error (download, permissions, ownership or
  unpacking), the deferred function first calls the removal of the user.  If that
  succeeds, it removes the folder next, the reverse of the order in which the two were
  acquired, and construction fails with a malformed-payload error.  If the removal of the
  user fails, construction panics: no error is returned and the folder stays.
\<close>

theorem fetchContext_failure_unwinds:
  assumes "b_engine_config_CreateUser b" and "NewFolder os = Inr folder"
    and "CreateUser os folder = Inr usr" and "b_payload_Context b \<noteq> []"
  shows "(\<forall>f. Download os (b_payload_Context b) (Home usr) = Inr f \<and> Chmod os f = None
              \<and> ChangeOwner os f usr = None \<and> Ext f \<noteq> ''.zip'' \<and> Ext f \<noteq> ''.gz'' \<longrightarrow>
              fetchContext os (b_payload_Context b) usr
              = (None, [EvDownload f, EvChmod f, EvChangeOwner f])
            \<and> (\<forall>p. StartProcess os (b_payload_Command b) usr = Inr p \<longrightarrow>
                  (\<exists>s. newSandbox os b
                        = (Returns (Inr s),
                           [EvNewFolder folder, EvCreateUser usr, EvDownload f, EvChmod f,
                            EvChangeOwner f, EvStartProcess p])
                      \<and> process s = p \<and> user s = usr \<and> workingFolder s = Some folder)))
       \<and> (\<forall>err evs. fetchContext os (b_payload_Context b) usr = (Some err, evs) \<longrightarrow>
              (UserRemove os usr = None \<longrightarrow>
                 newSandbox os b
                 = (Returns (Inl (MalformedPayloadError ''Error downloading '' (Some err))),
                    [EvNewFolder folder, EvCreateUser usr] @ evs
                    @ [EvUserRemove usr, EvFolderRemove folder]))
            \<and> (\<forall>failure. UserRemove os usr = Some failure \<longrightarrow>
                 newSandbox os b
                 = (Panics failure,
                    [EvNewFolder folder, EvCreateUser usr] @ evs @ [EvUserRemove usr])))"
proof -
  have a: "fetchContext os (b_payload_Context b) usr
           = (None, [EvDownload f, EvChmod f, EvChangeOwner f])"
    if "Download os (b_payload_Context b) (Home usr) = Inr f" "Chmod os f = None"
      "ChangeOwner os f usr = None" "Ext f \<noteq> ''.zip''" "Ext f \<noteq> ''.gz''" for f
    using that by (simp add: fetchContext_def unpack_by_extension_def Ext_def)
  have a': "\<exists>s. newSandbox os b
                  = (Returns (Inr s),
                     [EvNewFolder folder, EvCreateUser usr, EvDownload f, EvChmod f,
                      EvChangeOwner f, EvStartProcess p])
                \<and> process s = p \<and> user s = usr \<and> workingFolder s = Some folder"
    if "fetchContext os (b_payload_Context b) usr
        = (None, [EvDownload f, EvChmod f, EvChangeOwner f])"
      and "StartProcess os (b_payload_Command b) usr = Inr p" for f p
    using that assms by (simp add: newSandbox_def newSandbox_with_user_def)
  have b: "newSandbox os b
           = (Returns (Inl (MalformedPayloadError ''Error downloading '' (Some err))),
              [EvNewFolder folder, EvCreateUser usr] @ evs
              @ [EvUserRemove usr, EvFolderRemove folder])"
    if "fetchContext os (b_payload_Context b) usr = (Some err, evs)"
      and "UserRemove os usr = None" for err evs
    using that assms
    by (simp add: newSandbox_def newSandbox_with_user_def deferred_cleanup_def)
  have c: "newSandbox os b
           = (Panics failure, [EvNewFolder folder, EvCreateUser usr] @ evs @ [EvUserRemove usr])"
    if "fetchContext os (b_payload_Context b) usr = (Some err, evs)"
      and "UserRemove os usr = Some failure" for err evs failure
    using that assms
    by (simp add: newSandbox_def newSandbox_with_user_def deferred_cleanup_def)
  from a a' b c show ?thesis by blast
qed

text \<open>
  A shell script is fetched without error and the process is started; a zip archive that
  does not unpack makes construction fail, the user is removed and then the folder; when
  the user cannot be removed either, construction panics and the folder stays.
\<close>

theorem fetchContext_failure_unwinds_witness:
  "b_engine_config_CreateUser script_builder \<and> b_payload_Context script_builder \<noteq> []
   \<and> NewFolder script_os = Inr ''/tmp/work'' \<and> CreateUser script_os ''/tmp/work'' = Inr task_user
   \<and> fetchContext script_os (b_payload_Context script_builder) task_user
     = (None, [EvDownload ''/home/task/run.sh'', EvChmod ''/home/task/run.sh'',
               EvChangeOwner ''/home/task/run.sh''])
   \<and> (\<exists>s. newSandbox script_os script_builder
          = (Returns (Inr s),
             [EvNewFolder ''/tmp/work'', EvCreateUser task_user,
              EvDownload ''/home/task/run.sh'', EvChmod ''/home/task/run.sh'',
              EvChangeOwner ''/home/task/run.sh'', EvStartProcess 7]))
   \<and> UserRemove broken_zip_os task_user = None
   \<and> newSandbox broken_zip_os script_builder
     = (Returns (Inl (MalformedPayloadError ''Error downloading ''
                        (Some (Errorf ''Error unpacking ''
                                 (Some (OSError ''zip: not a valid zip file'')))))),
        [EvNewFolder ''/tmp/work'', EvCreateUser task_user,
         EvDownload ''/home/task/context.zip'', EvChmod ''/home/task/context.zip'',
         EvChangeOwner ''/home/task/context.zip'', EvUnzip ''/home/task/context.zip'',
         EvUserRemove task_user, EvFolderRemove ''/tmp/work''])
   \<and> UserRemove stuck_user_os task_user = Some (OSError ''user is logged in'')
   \<and> newSandbox stuck_user_os script_builder
     = (Panics (OSError ''user is logged in''),
        [EvNewFolder ''/tmp/work'', EvCreateUser task_user,
         EvDownload ''/home/task/context.zip'', EvChmod ''/home/task/context.zip'',
         EvChangeOwner ''/home/task/context.zip'', EvUnzip ''/home/task/context.zip'',
         EvUserRemove task_user])"
proof -
  let ?zip = "[EvDownload ''/home/task/context.zip'', EvChmod ''/home/task/context.zip'',
               EvChangeOwner ''/home/task/context.zip'', EvUnzip ''/home/task/context.zip'']"
  let ?err = "Errorf ''Error unpacking '' (Some (OSError ''zip: not a valid zip file''))"
  have b1: "b_engine_config_CreateUser script_builder"
    and b2: "b_payload_Context script_builder \<noteq> []"
    by (simp_all add: script_builder_def)
  have s1: "NewFolder script_os = Inr ''/tmp/work''"
    and s2: "CreateUser script_os ''/tmp/work'' = Inr task_user"
    by (simp_all add: script_os_def)
  have z1: "NewFolder broken_zip_os = Inr ''/tmp/work''"
    and z2: "CreateUser broken_zip_os ''/tmp/work'' = Inr task_user"
    and z3: "UserRemove broken_zip_os task_user = None"
    by (simp_all add: broken_zip_os_def script_os_def)
  have k1: "NewFolder stuck_user_os = Inr ''/tmp/work''"
    and k2: "CreateUser stuck_user_os ''/tmp/work'' = Inr task_user"
    and k3: "UserRemove stuck_user_os task_user = Some (OSError ''user is logged in'')"
    by (simp_all add: stuck_user_os_def broken_zip_os_def script_os_def)
  have d: "Download script_os (b_payload_Context script_builder) (Home task_user)
             = Inr ''/home/task/run.sh''
           \<and> Chmod script_os ''/home/task/run.sh'' = None
           \<and> ChangeOwner script_os ''/home/task/run.sh'' task_user = None
           \<and> Ext ''/home/task/run.sh'' \<noteq> ''.zip'' \<and> Ext ''/home/task/run.sh'' \<noteq> ''.gz''"
    by code_simp
  have p: "StartProcess script_os (b_payload_Command script_builder) task_user = Inr 7"
    by (simp add: script_os_def)
  have fz: "fetchContext broken_zip_os (b_payload_Context script_builder) task_user
            = (Some ?err, ?zip)"
    by code_simp
  have fk: "fetchContext stuck_user_os (b_payload_Context script_builder) task_user
            = (Some ?err, ?zip)"
    by code_simp
  from fetchContext_failure_unwinds [OF b1 s1 s2 b2] d p
  have one: "fetchContext script_os (b_payload_Context script_builder) task_user
     = (None, [EvDownload ''/home/task/run.sh'', EvChmod ''/home/task/run.sh'',
               EvChangeOwner ''/home/task/run.sh''])
     \<and> (\<exists>s. newSandbox script_os script_builder
          = (Returns (Inr s),
             [EvNewFolder ''/tmp/work'', EvCreateUser task_user,
              EvDownload ''/home/task/run.sh'', EvChmod ''/home/task/run.sh'',
              EvChangeOwner ''/home/task/run.sh'', EvStartProcess 7]))"
    by blast
  from fetchContext_failure_unwinds [OF b1 z1 z2 b2] fz z3
  have "newSandbox broken_zip_os script_builder
     = (Returns (Inl (MalformedPayloadError ''Error downloading '' (Some ?err))),
        [EvNewFolder ''/tmp/work'', EvCreateUser task_user] @ ?zip
        @ [EvUserRemove task_user, EvFolderRemove ''/tmp/work''])"
    by blast
  then have two: "newSandbox broken_zip_os script_builder
     = (Returns (Inl (MalformedPayloadError ''Error downloading '' (Some ?err))),
        [EvNewFolder ''/tmp/work'', EvCreateUser task_user,
         EvDownload ''/home/task/context.zip'', EvChmod ''/home/task/context.zip'',
         EvChangeOwner ''/home/task/context.zip'', EvUnzip ''/home/task/context.zip'',
         EvUserRemove task_user, EvFolderRemove ''/tmp/work''])"
    by simp
  from fetchContext_failure_unwinds [OF b1 k1 k2 b2] fk k3
  have "newSandbox stuck_user_os script_builder
     = (Panics (OSError ''user is logged in''),
        [EvNewFolder ''/tmp/work'', EvCreateUser task_user] @ ?zip @ [EvUserRemove task_user])"
    by blast
  then have three: "newSandbox stuck_user_os script_builder
     = (Panics (OSError ''user is logged in''),
        [EvNewFolder ''/tmp/work'', EvCreateUser task_user,
         EvDownload ''/home/task/context.zip'', EvChmod ''/home/task/context.zip'',
         EvChangeOwner ''/home/task/context.zip'', EvUnzip ''/home/task/context.zip'',
         EvUserRemove task_user])"
    by simp
  from b1 b2 s1 s2 one z3 two k3 three show ?thesis by blast
qed

text \<open>
  The downloaded file is \<open>run.sh\<close>, an extension that is no archive: construction
  returns a sandbox, not an error; the process is started, and neither the user nor the
  folder is removed.
\<close>

theorem unknown_extension_counterexample:
  "Download script_os (b_payload_Context script_builder) (Home task_user)
     = Inr ''/home/task/run.sh''
   \<and> Ext ''/home/task/run.sh'' = ''.sh''
   \<and> map_option isl (returned (fst (newSandbox script_os script_builder))) = Some False
   \<and> snd (newSandbox script_os script_builder)
     = [EvNewFolder ''/tmp/work'', EvCreateUser task_user, EvDownload ''/home/task/run.sh'',
        EvChmod ''/home/task/run.sh'', EvChangeOwner ''/home/task/run.sh'', EvStartProcess 7]"
  by code_simp

section \<open>The virtual machine\<close>

lemma exit_watcher_runs:
  assumes "network vm = Some n" and "image' vm = Some i" and "\<not> Done_closed vm"
  shows "exit_watcher werr vm
         = Inr (vm\<lparr>qemu := Exited,
                   Error := (if Error vm = None then werr else Error vm),
                   network := None, image' := None, socketFolder := [],
                   vm_log := vm_log vm @ [CloseStdoutWriter, CloseStderrWriter, NetworkRelease n,
                                          ImageRelease i, RemoveAll (socketFolder vm), CloseDone],
                   Done_closed := True\<rparr>)"
  using assms by (simp add: exit_watcher_def Let_def logged_def close_qemuDone_def)

lemma exit_watcher_released:
  assumes "exit_watcher werr vm = Inr vm'"
  shows "network vm' = None" "image' vm' = None" "socketFolder vm' = []" "Done_closed vm'"
    "qemu vm' = Exited" "started vm' = started vm"
proof -
  from assms obtain n where n: "network vm = Some n"
    by (cases "network vm") (auto simp: exit_watcher_def Let_def logged_def)
  from assms n obtain i where i: "image' vm = Some i"
    by (cases "image' vm") (auto simp: exit_watcher_def Let_def logged_def)
  from assms n i have d: "\<not> Done_closed vm"
    by (auto simp: exit_watcher_def Let_def logged_def close_qemuDone_def split: if_splits)
  from exit_watcher_runs [OF n i d] assms
  show "network vm' = None" "image' vm' = None" "socketFolder vm' = []" "Done_closed vm'"
    "qemu vm' = Exited" "started vm' = started vm"
    by auto
qed

lemma count_list_absent: "x \<notin> set xs \<Longrightarrow> count_list xs x = 0"
  by (induction xs) auto

lemma demo_vm_fresh:
  "\<not> started demo_vm" "\<not> Done_closed demo_vm" "network demo_vm = Some demo_network"
  "image' demo_vm = Some 3" "qemu demo_vm = NotStarted" "vm_log demo_vm = []"
  "Error demo_vm = None" "socketFolder demo_vm = ''/run/qemu/slug''"
  by (simp_all add: demo_vm_def NewVirtualMachine_def demo_join_def)


text \<open>
  C2.  Take a machine as \<open>NewVirtualMachine\<close> builds it: not started, done-signal open,
  network and image present.  Whatever happens around \<open>Start\<close> (the watcher cannot be set
  up, QEMU cannot be spawned, or QEMU runs and later exits, with the final \<open>select\<close>
  resolved in any way), the life of the machine ends without a panic, with the done-signal
  closed and exactly one close of it on record.  In the two failure paths \<open>Start\<close> itself
  closes it and no process was started; otherwise the exit watcher closes it after the
  process has exited.  A second \<open>Start\<close> panics before it can close anything.
\<close>

theorem Done_closed_exactly_once:
  assumes "\<not> started vm" and "\<not> Done_closed vm" and "network vm \<noteq> None"
    and "image' vm \<noteq> None" and "qemu vm = NotStarted" and "CloseDone \<notin> set (vm_log vm)"
  shows "\<exists>vm'. lifetime e vm = Inr vm' \<and> Done_closed vm'
            \<and> count_list (vm_log vm') CloseDone = 1
            \<and> Start e' vm' = Inl AlreadyStarted
            \<and> (waitForSockets_err e \<noteq> None \<or> qemu_Start_err e \<noteq> None \<longrightarrow>
                 Start e vm = Inr vm' \<and> qemu vm' = NotStarted)
            \<and> (waitForSockets_err e = None \<and> qemu_Start_err e = None \<longrightarrow>
                 qemu vm' = Exited \<and> network vm' = None \<and> image' vm' = None)"
proof -
  from assms(3,4) obtain n i where n: "network vm = Some n" and i: "image' vm = Some i"
    by auto
  from assms(6) have c0: "count_list (vm_log vm) CloseDone = 0"
    by (rule count_list_absent)
  show ?thesis
  proof (cases "waitForSockets_err e")
    case (Some err)
    with assms c0 show ?thesis
      by (simp add: lifetime_def Start_def finish_def close_qemuDone_def logged_def)
  next
    case None
    note w = None
    show ?thesis
    proof (cases "qemu_Start_err e")
      case (Some err)
      with w assms c0 show ?thesis
        by (simp add: lifetime_def Start_def finish_def close_qemuDone_def logged_def)
    next
      case None
      note q = None
      show ?thesis
      proof (cases "selected e")
        case (SocketsReady r)
        with w q assms c0 n i show ?thesis
          by (cases r)
            (simp_all add: lifetime_def Start_def finish_def on_socketsReady_def Kill_vm_def
              exit_watcher_runs logged_def Let_def)
      next
        case (SocketsReadyAfterExit r)
        with w q assms c0 n i show ?thesis
          by (cases r; cases "qemu_Wait_err e")
            (simp_all add: lifetime_def Start_def finish_def on_socketsReady_def Kill_vm_def
              exit_watcher_runs logged_def Let_def)
      next
        case DoneFirst
        with w q assms c0 n i show ?thesis
          by (simp add: lifetime_def Start_def finish_def exit_watcher_runs logged_def Let_def)
      qed
    qed
  qed
qed

text \<open>
  The three paths on one freshly built machine: the sockets never show up and the process
  is killed; the watcher cannot be set up; QEMU cannot be spawned.
\<close>

theorem Done_closed_exactly_once_witness:
  "\<not> started demo_vm \<and> \<not> Done_closed demo_vm \<and> network demo_vm \<noteq> None
   \<and> image' demo_vm \<noteq> None \<and> qemu demo_vm = NotStarted \<and> CloseDone \<notin> set (vm_log demo_vm)
   \<and> waitForSockets_err timeout_env = None \<and> qemu_Start_err timeout_env = None
   \<and> (\<exists>vm'. lifetime timeout_env demo_vm = Inr vm' \<and> Done_closed vm'
           \<and> count_list (vm_log vm') CloseDone = 1 \<and> qemu vm' = Exited
           \<and> Start timeout_env vm' = Inl AlreadyStarted)
   \<and> waitForSockets_err no_watch_env \<noteq> None
   \<and> (\<exists>vm'. Start no_watch_env demo_vm = Inr vm' \<and> Done_closed vm'
           \<and> count_list (vm_log vm') CloseDone = 1 \<and> qemu vm' = NotStarted)
   \<and> qemu_Start_err no_spawn_env \<noteq> None
   \<and> (\<exists>vm'. Start no_spawn_env demo_vm = Inr vm' \<and> Done_closed vm'
           \<and> count_list (vm_log vm') CloseDone = 1 \<and> qemu vm' = NotStarted)"
proof -
  have h: "\<not> started demo_vm" "\<not> Done_closed demo_vm" "network demo_vm \<noteq> None"
    "image' demo_vm \<noteq> None" "qemu demo_vm = NotStarted" "CloseDone \<notin> set (vm_log demo_vm)"
    by (simp_all add: demo_vm_fresh)
  have t: "waitForSockets_err timeout_env = None" "qemu_Start_err timeout_env = None"
    by (simp_all add: timeout_env_def)
  have w: "waitForSockets_err no_watch_env \<noteq> None"
    by (simp add: no_watch_env_def)
  have q: "qemu_Start_err no_spawn_env \<noteq> None"
    by (simp add: no_spawn_env_def)
  from Done_closed_exactly_once [OF h, of timeout_env timeout_env] t
  have a: "\<exists>vm'. lifetime timeout_env demo_vm = Inr vm' \<and> Done_closed vm'
           \<and> count_list (vm_log vm') CloseDone = 1 \<and> qemu vm' = Exited
           \<and> Start timeout_env vm' = Inl AlreadyStarted"
    by auto
  from Done_closed_exactly_once [OF h, of no_watch_env no_watch_env] w
  have b: "\<exists>vm'. Start no_watch_env demo_vm = Inr vm' \<and> Done_closed vm'
           \<and> count_list (vm_log vm') CloseDone = 1 \<and> qemu vm' = NotStarted"
    by auto
  from Done_closed_exactly_once [OF h, of no_spawn_env no_spawn_env] q
  have c: "\<exists>vm'. Start no_spawn_env demo_vm = Inr vm' \<and> Done_closed vm'
           \<and> count_list (vm_log vm') CloseDone = 1 \<and> qemu vm' = NotStarted"
    by auto
  from h t w q a b c show ?thesis by blast
qed

text \<open>
  C3.  When the exit watcher runs on a machine that still holds its network and its image
  and whose done-signal is open, it ends without a panic and what it does, in order, is:
  close the two output pipes, release the network, release the image, remove the socket
  folder, and close the done-signal as the very last step.  The exit error is recorded
  only when no error was recorded before.  In the state in which the done-signal is closed
  the network and the image are nil and the socket folder is the empty string.
\<close>

theorem exit_watcher_closes_last:
  assumes "network vm = Some n" and "image' vm = Some i" and "\<not> Done_closed vm"
  shows "\<exists>vm'. exit_watcher werr vm = Inr vm'
            \<and> vm_log vm' = vm_log vm @ [CloseStdoutWriter, CloseStderrWriter, NetworkRelease n,
                                       ImageRelease i, RemoveAll (socketFolder vm), CloseDone]
            \<and> Error vm' = (if Error vm = None then werr else Error vm)
            \<and> network vm' = None \<and> image' vm' = None \<and> socketFolder vm' = []
            \<and> Done_closed vm'"
  using assms by (simp add: exit_watcher_def Let_def logged_def close_qemuDone_def)

theorem exit_watcher_closes_last_witness:
  "network demo_vm = Some demo_network \<and> image' demo_vm = Some 3 \<and> \<not> Done_closed demo_vm
   \<and> (\<exists>vm'. exit_watcher (Some (OSError ''exit status 1'')) demo_vm = Inr vm'
           \<and> vm_log vm' = [CloseStdoutWriter, CloseStderrWriter, NetworkRelease demo_network,
                           ImageRelease 3, RemoveAll ''/run/qemu/slug'', CloseDone]
           \<and> Error vm' = Some (OSError ''exit status 1'')
           \<and> network vm' = None \<and> image' vm' = None \<and> socketFolder vm' = []
           \<and> Done_closed vm')"
proof -
  have h: "network demo_vm = Some demo_network" "image' demo_vm = Some 3"
    "\<not> Done_closed demo_vm"
    by (simp_all add: demo_vm_fresh)
  from exit_watcher_closes_last [OF h, of "Some (OSError ''exit status 1'')"]
  show ?thesis using h by (simp add: demo_vm_fresh)
qed

text \<open>
  C9.  \<open>SetHTTPHandler\<close> has no way to panic, and on a machine whose network field is
  nil it changes nothing.  That is the case in particular for every machine the exit
  watcher has finished with.
\<close>

theorem SetHTTPHandler_released_noop:
  "(network vm = None \<longrightarrow> SetHTTPHandler h vm = vm)
   \<and> (\<forall>werr vm0. exit_watcher werr vm0 = Inr vm \<longrightarrow> SetHTTPHandler h vm = vm)"
proof -
  have a: "SetHTTPHandler h vm = vm" if "network vm = None"
    using that by (simp add: SetHTTPHandler_def)
  have "SetHTTPHandler h vm = vm" if "exit_watcher werr vm0 = Inr vm" for werr vm0
    using exit_watcher_released(1) [OF that] by (rule a)
  with a show ?thesis by blast
qed

theorem SetHTTPHandler_released_noop_witness:
  "\<exists>vm. exit_watcher None demo_vm = Inr vm \<and> network vm = None
        \<and> SetHTTPHandler 9 vm = vm"
proof -
  have "\<not> isl (exit_watcher None demo_vm)
        \<and> network (projr (exit_watcher None demo_vm)) = None"
    by code_simp
  then obtain vm where e: "exit_watcher None demo_vm = Inr vm" and n: "network vm = None"
    by (cases "exit_watcher None demo_vm") auto
  from SetHTTPHandler_released_noop [of vm 9] n have "SetHTTPHandler 9 vm = vm"
    by blast
  with e n show ?thesis by blast
qed

text \<open>
  C6, at the input where it fails.  The readiness monitor, seeing nothing for 90 seconds,
  does deliver the timeout error, and \<open>Start\<close> does kill the process.  But \<open>Start\<close>
  stores the delivered error only when an error is already present, so here, where QEMU
  has started cleanly, the timeout error is dropped: the \<open>Error\<close> field is still nil when
  \<open>Start\<close> returns, and the terminal error is the exit error of the killed process.
\<close>

theorem Start_drops_timeout_error:
  "monitor [TimerFired] = Delivered timeout_error
   \<and> selected timeout_env = SocketsReady (Some timeout_error)
   \<and> \<not> isl (Start timeout_env demo_vm)
   \<and> Error (projr (Start timeout_env demo_vm)) = None
   \<and> ProcessKill \<in> set (vm_log (projr (Start timeout_env demo_vm)))
   \<and> \<not> isl (lifetime timeout_env demo_vm)
   \<and> Done_closed (projr (lifetime timeout_env demo_vm))
   \<and> Error (projr (lifetime timeout_env demo_vm)) = Some (OSError ''signal: killed'')
   \<and> Error (projr (lifetime timeout_env demo_vm)) \<noteq> Some timeout_error"
  by code_simp

section \<open>Image inspection\<close>

text \<open>
  C10.  \<open>inspectImageFile\<close> returns nil when the \<open>qemu-img\<close> subprocess reports an error
  and when its output does not unmarshal; it has no other way to fail.  It returns an
  information value exactly when the subprocess succeeds and its output unmarshals, and
  then it is the unmarshalled value.
\<close>

theorem inspectImageFile_nil_on_failure:
  "(snd (Output e (qemu_img_info e f fmt)) \<noteq> None \<longrightarrow> inspectImageFile e f fmt = None)
   \<and> (isl (Unmarshal e (fst (Output e (qemu_img_info e f fmt)))) \<longrightarrow>
        inspectImageFile e f fmt = None)
   \<and> (inspectImageFile e f fmt = Some info \<longleftrightarrow>
        snd (Output e (qemu_img_info e f fmt)) = None
        \<and> Unmarshal e (fst (Output e (qemu_img_info e f fmt))) = Inr info)"
  by (auto simp: inspectImageFile_def split: prod.splits option.splits sum.splits)

theorem inspectImageFile_nil_on_failure_witness:
  "snd (Output failing_image_env
          (qemu_img_info failing_image_env ''/images/disk.img'' imageQCOW2Format)) \<noteq> None
   \<and> inspectImageFile failing_image_env ''/images/disk.img'' imageQCOW2Format = None
   \<and> isl (Unmarshal garbled_image_env
            (fst (Output garbled_image_env
                    (qemu_img_info garbled_image_env ''/images/disk.img'' imageRawFormat))))
   \<and> inspectImageFile garbled_image_env ''/images/disk.img'' imageRawFormat = None
   \<and> snd (Output demo_image_env
            (qemu_img_info demo_image_env ''/images/disk.img'' imageQCOW2Format)) = None
   \<and> inspectImageFile demo_image_env ''/images/disk.img'' imageQCOW2Format = Some demo_info"
proof -
  have a: "snd (Output failing_image_env
          (qemu_img_info failing_image_env ''/images/disk.img'' imageQCOW2Format)) \<noteq> None"
    by (simp add: failing_image_env_def demo_image_env_def)
  have b: "isl (Unmarshal garbled_image_env
            (fst (Output garbled_image_env
                    (qemu_img_info garbled_image_env ''/images/disk.img'' imageRawFormat))))"
    by (simp add: garbled_image_env_def demo_image_env_def)
  have c: "snd (Output demo_image_env
            (qemu_img_info demo_image_env ''/images/disk.img'' imageQCOW2Format)) = None"
    and d: "Unmarshal demo_image_env
              (fst (Output demo_image_env
                      (qemu_img_info demo_image_env ''/images/disk.img'' imageQCOW2Format)))
            = Inr demo_info"
    by (simp_all add: demo_image_env_def)
  from inspectImageFile_nil_on_failure
         [of failing_image_env "''/images/disk.img''" imageQCOW2Format] a
  have "inspectImageFile failing_image_env ''/images/disk.img'' imageQCOW2Format = None"
    by blast
  moreover from inspectImageFile_nil_on_failure
         [of garbled_image_env "''/images/disk.img''" imageRawFormat] b
  have "inspectImageFile garbled_image_env ''/images/disk.img'' imageRawFormat = None"
    by blast
  moreover from inspectImageFile_nil_on_failure
         [of demo_image_env "''/images/disk.img''" imageQCOW2Format demo_info] c d
  have "inspectImageFile demo_image_env ''/images/disk.img'' imageQCOW2Format = Some demo_info"
    by blast
  ultimately show ?thesis using a b c by blast
qed


end
